theory Spec2Isabelle
  imports Main "HOL-Library.Word"
begin

section \<open>Data model of app/main.py\<close>

text \<open>
  A Python \<open>str\<close> is a sequence of Unicode code points and a \<open>bytes\<close> object a
  sequence of octets.  Form text reaches the handlers already decoded by the web
  framework, so it holds scalar values only and \<open>str.encode("utf-8")\<close> is total on it.
\<close>

type_synonym ustr = "nat list"
type_synonym byte = "8 word"

definition py :: "string \<Rightarrow> ustr" where
  "py s = map of_char s"

datatype json = JNull | JStr ustr | JInt int | JList "json list" | JObj "(ustr \<times> json) list"

text \<open>
  What the client receives: a \<open>JSONResponse\<close> with its status code (200 unless given),
  or the server's answer to an exception that no handler code catches.
\<close>

datatype response = JSONResponse (content: json) (status_code: nat) | ServerError

record upload =
  filename :: "ustr option"
  content_type :: "ustr option"
  contents :: "byte list"

record request =
  request_obj :: "nat list"
  xml_text :: "ustr option"
  xml_file :: "upload option"
  indent_spaces :: int

text \<open>
  The state a handler could consult outside its arguments: the wall clock read by
  \<open>datetime.utcnow()\<close> in the routes \<open>/\<close>, \<open>/api/time\<close> and \<open>/privacy\<close>.
\<close>

record world =
  utcnow :: nat

text \<open>
  The third-party calls of the three handlers.  Each field is the call's outcome as the
  handler sees it: \<open>Inl msg\<close> when the call raises an exception \<open>e\<close> with
  \<open>str(e) = msg\<close>, \<open>Inr v\<close> when it returns \<open>v\<close>.
  \<^item> \<open>defused_fromstring b\<close>: \<open>defused_et.fromstring(b)\<close>, the result tree dropped;
  \<^item> \<open>minidom_pretty b ind\<close>: \<open>xml.dom.minidom.parseString(b).toprettyxml(indent=ind)\<close>;
  \<^item> \<open>et_compact s\<close>: \<open>ET.tostring(ET.fromstring(s), encoding="utf-8").decode("utf-8")\<close>;
  \<^item> \<open>xmltodict_parse s\<close>: \<open>xmltodict.parse(s)\<close>.
\<close>

record libs =
  defused_fromstring :: "byte list \<Rightarrow> ustr + unit"
  minidom_pretty :: "byte list \<Rightarrow> ustr \<Rightarrow> ustr + ustr"
  et_compact :: "ustr \<Rightarrow> ustr + ustr"
  xmltodict_parse :: "ustr \<Rightarrow> ustr + json"

text \<open>
  The interpreter's tables and limits: the decimal digits (Unicode category Nd) with
  their values, used by \<open>re\<close> and \<open>int\<close>; \<open>sys.get_int_max_str_digits()\<close>, where
  0 switches the limit off; and the deepest nesting of lists and mappings that
  \<open>json.dumps\<close> renders before the recursion limit makes it raise \<open>RecursionError\<close>.
\<close>

record runtime =
  decimal :: "nat \<Rightarrow> nat option"
  int_max_str_digits :: nat
  json_depth_limit :: nat

section \<open>Built-in string operations\<close>

definition MAX_XML_BYTES :: nat where
  "MAX_XML_BYTES = 1000000"

text \<open>\<open>str.isspace\<close> on one code point, which is also the class \<open>\s\<close> of \<open>re\<close>.\<close>

definition isspace :: "nat \<Rightarrow> bool" where
  "isspace c \<longleftrightarrow>
     (9 \<le> c \<and> c \<le> 13) \<or> (28 \<le> c \<and> c \<le> 32) \<or> c = 133 \<or> c = 160 \<or> c = 5760 \<or>
     (8192 \<le> c \<and> c \<le> 8202) \<or> c = 8232 \<or> c = 8233 \<or> c = 8239 \<or> c = 8287 \<or> c = 12288"

text \<open>The line boundaries of \<open>str.splitlines\<close>.\<close>

definition islinebreak :: "nat \<Rightarrow> bool" where
  "islinebreak c \<longleftrightarrow>
     (10 \<le> c \<and> c \<le> 13) \<or> (28 \<le> c \<and> c \<le> 30) \<or> c = 133 \<or> c = 8232 \<or> c = 8233"

definition strip :: "ustr \<Rightarrow> ustr" where
  "strip s = rev (dropWhile isspace (rev (dropWhile isspace s)))"

text \<open>\<open>str.splitlines()\<close>: \<open>cur\<close> is the line read so far; \<open>\r\n\<close> is one boundary.\<close>

fun splitlines_from :: "ustr \<Rightarrow> ustr \<Rightarrow> ustr list" where
  "splitlines_from cur [] = (if cur = [] then [] else [cur])"
| "splitlines_from cur [c] = (if islinebreak c then [cur] else [cur @ [c]])"
| "splitlines_from cur (c # d # s) =
     (if c = 13 \<and> d = 10 then cur # splitlines_from [] s
      else if islinebreak c then cur # splitlines_from [] (d # s)
      else splitlines_from (cur @ [c]) (d # s))"

definition splitlines :: "ustr \<Rightarrow> ustr list" where
  "splitlines s = splitlines_from [] s"

text \<open>\<open>sep.join(xs)\<close>.\<close>

fun join :: "ustr \<Rightarrow> ustr list \<Rightarrow> ustr" where
  "join sep [] = []"
| "join sep [x] = x"
| "join sep (x # y # xs) = x @ sep @ join sep (y # xs)"

text \<open>\<open>s.encode("utf-8")\<close>, one code point at a time.\<close>

definition encode_cp :: "nat \<Rightarrow> byte list" where
  "encode_cp c =
     (if c < 128 then [of_nat c]
      else if c < 2048 then [of_nat (192 + c div 64), of_nat (128 + c mod 64)]
      else if c < 65536 then
        [of_nat (224 + c div 4096), of_nat (128 + (c div 64) mod 64), of_nat (128 + c mod 64)]
      else
        [of_nat (240 + c div 262144), of_nat (128 + (c div 4096) mod 64),
         of_nat (128 + (c div 64) mod 64), of_nat (128 + c mod 64)])"

definition encode_utf8 :: "ustr \<Rightarrow> byte list" where
  "encode_utf8 s = concat (map encode_cp s)"

text \<open>\<open>str(n)\<close> for a non-negative integer, as the f-strings render \<open>len(...)\<close>.\<close>

fun str_nat :: "nat \<Rightarrow> ustr" where
  "str_nat n = (if n < 10 then [48 + n] else str_nat (n div 10) @ [48 + n mod 10])"

declare str_nat.simps [simp del]

section \<open>Decoding an upload\<close>

datatype codec_error = UnicodeDecodeError

definition cont :: "byte \<Rightarrow> bool" where
  "cont b \<longleftrightarrow> 128 \<le> unat b \<and> unat b < 192"

text \<open>
  \<open>contents.decode("utf-8")\<close>, strict: a malformed, truncated or overlong sequence, a
  surrogate or a value above U+10FFFF raises.
\<close>

fun decode_utf8 :: "byte list \<Rightarrow> codec_error + ustr" where
  "decode_utf8 [] = Inr []"
| "decode_utf8 (b # bs) =
     (let x = unat b in
      if x < 128 then
        (case decode_utf8 bs of Inl e \<Rightarrow> Inl e | Inr s \<Rightarrow> Inr (x # s))
      else if 194 \<le> x \<and> x < 224 then
        (case bs of
           b1 # r \<Rightarrow>
             if cont b1 then
               (case decode_utf8 r of Inl e \<Rightarrow> Inl e
                | Inr s \<Rightarrow> Inr (((x - 192) * 64 + (unat b1 - 128)) # s))
             else Inl UnicodeDecodeError
         | _ \<Rightarrow> Inl UnicodeDecodeError)
      else if 224 \<le> x \<and> x < 240 then
        (case bs of
           b1 # b2 # r \<Rightarrow>
             if cont b1 \<and> cont b2 \<and> (x = 224 \<longrightarrow> 160 \<le> unat b1) \<and> (x = 237 \<longrightarrow> unat b1 < 160) then
               (case decode_utf8 r of Inl e \<Rightarrow> Inl e
                | Inr s \<Rightarrow>
                    Inr (((x - 224) * 4096 + (unat b1 - 128) * 64 + (unat b2 - 128)) # s))
             else Inl UnicodeDecodeError
         | _ \<Rightarrow> Inl UnicodeDecodeError)
      else if 240 \<le> x \<and> x < 245 then
        (case bs of
           b1 # b2 # b3 # r \<Rightarrow>
             if cont b1 \<and> cont b2 \<and> cont b3 \<and> (x = 240 \<longrightarrow> 144 \<le> unat b1)
                \<and> (x = 244 \<longrightarrow> unat b1 < 144) then
               (case decode_utf8 r of Inl e \<Rightarrow> Inl e
                | Inr s \<Rightarrow>
                    Inr (((x - 240) * 262144 + (unat b1 - 128) * 4096 + (unat b2 - 128) * 64
                          + (unat b3 - 128)) # s))
             else Inl UnicodeDecodeError
         | _ \<Rightarrow> Inl UnicodeDecodeError)
      else Inl UnicodeDecodeError)"

text \<open>
  \<open>contents.decode("latin-1", errors="ignore")\<close>: every octet is the code point of the
  same number, so the error handler is never asked.
\<close>

definition decode_latin1_ignore :: "byte list \<Rightarrow> codec_error + ustr" where
  "decode_latin1_ignore bs = Inr (map unat bs)"

text \<open>Lines 89-92, 141-144 and 188-191: the \<open>try\<close> with its fallback.\<close>

definition decode_contents :: "byte list \<Rightarrow> codec_error + ustr" where
  "decode_contents bs =
     (case decode_utf8 bs of Inr raw \<Rightarrow> Inr raw | Inl e \<Rightarrow> decode_latin1_ignore bs)"

section \<open>Extracting the line number\<close>

text \<open>
  \<open>re.search(r'line\s+(\d+)', msg, re.IGNORECASE)\<close>.  Under \<open>IGNORECASE\<close> the literal
  \<open>i\<close> also matches U+0130 and U+0131; the other three letters match their two ASCII
  forms only.
\<close>

definition ci_line :: "ustr \<Rightarrow> bool" where
  "ci_line w \<longleftrightarrow>
     (case w of
        [a, b, c, d] \<Rightarrow>
          (a = 108 \<or> a = 76) \<and> (b = 105 \<or> b = 73 \<or> b = 304 \<or> b = 305) \<and>
          (c = 110 \<or> c = 78) \<and> (d = 101 \<or> d = 69)
      | _ \<Rightarrow> False)"

definition isdec :: "runtime \<Rightarrow> nat \<Rightarrow> bool" where
  "isdec R c \<longleftrightarrow> decimal R c \<noteq> None"

text \<open>
  The match attempt at the start of \<open>s\<close>, giving group 1.  Both repetitions are greedy,
  and no code point is a space and a decimal digit at once, so the attempt is decided by
  the longest run of spaces followed by the longest run of digits.
\<close>

definition match_here :: "runtime \<Rightarrow> ustr \<Rightarrow> ustr option" where
  "match_here R s =
     (if ci_line (take 4 s) then
        (let t = drop 4 s; ds = takeWhile (isdec R) (dropWhile isspace t)
         in if t \<noteq> [] \<and> isspace (hd t) \<and> ds \<noteq> [] then Some ds else None)
      else None)"

text \<open>The search tries every start position from the left.\<close>

fun re_search :: "runtime \<Rightarrow> ustr \<Rightarrow> ustr option" where
  "re_search R [] = None"
| "re_search R (c # s) =
     (case match_here R (c # s) of Some ds \<Rightarrow> Some ds | None \<Rightarrow> re_search R s)"

definition digits_value :: "runtime \<Rightarrow> ustr \<Rightarrow> int" where
  "digits_value R ds = foldl (\<lambda>a c. 10 * a + int (case decimal R c of Some d \<Rightarrow> d | None \<Rightarrow> 0)) 0 ds"

text \<open>
  \<open>int(ds)\<close> for a run of decimal digits: \<open>ValueError\<close> (here \<open>None\<close>) when the run is
  longer than the interpreter's limit for integer strings.
\<close>

definition py_int :: "runtime \<Rightarrow> ustr \<Rightarrow> int option" where
  "py_int R ds =
     (if int_max_str_digits R \<noteq> 0 \<and> int_max_str_digits R < length ds then None
      else Some (digits_value R ds))"

definition extract_error_line :: "runtime \<Rightarrow> ustr \<Rightarrow> int option" where
  "extract_error_line R msg =
     (if msg = [] then None
      else (case re_search R msg of
              Some ds \<Rightarrow> (case py_int R ds of Some n \<Rightarrow> Some n | None \<Rightarrow> None)
            | None \<Rightarrow> None))"

section \<open>The three endpoints\<close>

definition error_body :: "ustr \<Rightarrow> json" where
  "error_body msg = JObj [(py ''error'', JStr msg)]"

definition line_json :: "int option \<Rightarrow> json" where
  "line_json l = (case l of None \<Rightarrow> JNull | Some n \<Rightarrow> JInt n)"

definition parse_error_body :: "ustr \<Rightarrow> int option \<Rightarrow> json" where
  "parse_error_body msg l =
     JObj [(py ''error'', JStr (py ''XML parse error: '' @ msg)), (py ''line'', line_json l)]"

definition too_large :: "string \<Rightarrow> nat \<Rightarrow> ustr" where
  "too_large what n =
     py what @ py '' too large ('' @ str_nat n @ py '' bytes). Max '' @ str_nat MAX_XML_BYTES
       @ py '' bytes.''"

text \<open>\<open>xml_file and getattr(xml_file, "filename", None)\<close>: an upload with a non-empty name.\<close>

definition named_file :: "request \<Rightarrow> upload option" where
  "named_file req =
     (case xml_file req of
        None \<Rightarrow> None
      | Some f \<Rightarrow> (case filename f of None \<Rightarrow> None | Some n \<Rightarrow> if n = [] then None else Some f))"

text \<open>
  Lines 83-98, repeated at 136-150 and 183-197 with another text for the missing input:
  the early response, or \<open>raw\<close>.
\<close>

definition pick_source :: "ustr \<Rightarrow> request \<Rightarrow> response + ustr" where
  "pick_source missing req =
     (case named_file req of
        Some f \<Rightarrow>
          if MAX_XML_BYTES < length (contents f) then
            Inl (JSONResponse (error_body (too_large ''File'' (length (contents f)))) 400)
          else (case decode_contents (contents f) of
                  Inl e \<Rightarrow> Inl ServerError
                | Inr raw \<Rightarrow> Inr raw)
      | None \<Rightarrow>
          (case xml_text req of
             Some raw \<Rightarrow>
               if MAX_XML_BYTES < length (encode_utf8 raw) then
                 Inl (JSONResponse (error_body (too_large ''Text'' (length (encode_utf8 raw)))) 400)
               else Inr raw
           | None \<Rightarrow> Inl (JSONResponse (error_body missing) 400)))"

text \<open>Lines 100-102, 152-154 and 199-201 after it: the stripped string, never empty.\<close>

definition read_input :: "ustr \<Rightarrow> request \<Rightarrow> response + ustr" where
  "read_input missing req =
     (case pick_source missing req of
        Inl r \<Rightarrow> Inl r
      | Inr raw \<Rightarrow>
          if strip raw = [] then Inl (JSONResponse (error_body (py ''Empty XML content.'')) 400)
          else Inr (strip raw))"

text \<open>Line 115.\<close>

definition indent_width :: "int \<Rightarrow> nat" where
  "indent_width n = (if n = 2 \<or> n = 3 \<or> n = 4 then nat n else 4)"

text \<open>Line 117.\<close>

definition drop_blank_lines :: "ustr \<Rightarrow> ustr" where
  "drop_blank_lines pretty = join [10] (filter (\<lambda>line. strip line \<noteq> []) (splitlines pretty))"

definition xml_format :: "libs \<Rightarrow> runtime \<Rightarrow> world \<Rightarrow> request \<Rightarrow> response" where
  "xml_format L R w req =
     (case read_input (py ''No XML provided. Paste XML or upload an .xml file.'') req of
        Inl r \<Rightarrow> r
      | Inr raw_stripped \<Rightarrow>
          (case defused_fromstring L (encode_utf8 raw_stripped) of
             Inl msg \<Rightarrow> JSONResponse (parse_error_body msg (extract_error_line R msg)) 400
           | Inr _ \<Rightarrow>
               (case minidom_pretty L (encode_utf8 raw_stripped)
                       (replicate (indent_width (indent_spaces req)) 32) of
                  Inl msg \<Rightarrow>
                    JSONResponse (error_body (py ''Failed to pretty-print XML: '' @ msg)) 400
                | Inr pretty \<Rightarrow>
                    JSONResponse (JObj [(py ''pretty'', JStr (drop_blank_lines pretty))]) 200)))"

definition xml_minify :: "libs \<Rightarrow> runtime \<Rightarrow> world \<Rightarrow> request \<Rightarrow> response" where
  "xml_minify L R w req =
     (case read_input (py ''No XML provided.'') req of
        Inl r \<Rightarrow> r
      | Inr raw \<Rightarrow>
          (case defused_fromstring L (encode_utf8 raw) of
             Inl msg \<Rightarrow> JSONResponse (parse_error_body msg (extract_error_line R msg)) 400
           | Inr _ \<Rightarrow>
               (case et_compact L raw of
                  Inl msg \<Rightarrow> JSONResponse (error_body (py ''XML minify error: '' @ msg)) 400
                | Inr compact \<Rightarrow> JSONResponse (JObj [(py ''pretty'', JStr compact)]) 200)))"

text \<open>How deep lists and mappings are nested in a value.\<close>

fun json_depth :: "json \<Rightarrow> nat" where
  "json_depth (JList xs) = Suc (fold max (map json_depth xs) 0)"
| "json_depth (JObj kvs) = Suc (fold max (map (\<lambda>kv. json_depth (snd kv)) kvs) 0)"
| "json_depth j = 0"

text \<open>
  Line 216 builds \<open>JSONResponse(parsed)\<close> outside every \<open>try\<close>: rendering the body
  calls \<open>json.dumps\<close>, and its \<open>RecursionError\<close> on a mapping nested too deep is
  caught by nobody.  Every other body of the three handlers is a flat object of strings,
  an integer or null, which always renders.
\<close>

definition xml_convert :: "libs \<Rightarrow> runtime \<Rightarrow> world \<Rightarrow> request \<Rightarrow> response" where
  "xml_convert L R w req =
     (case read_input (py ''No XML provided.'') req of
        Inl r \<Rightarrow> r
      | Inr raw \<Rightarrow>
          (case defused_fromstring L (encode_utf8 raw) of
             Inl msg \<Rightarrow> JSONResponse (parse_error_body msg (extract_error_line R msg)) 400
           | Inr _ \<Rightarrow>
               (case xmltodict_parse L raw of
                  Inl msg \<Rightarrow> JSONResponse (error_body (py ''XML->JSON parse error: '' @ msg)) 400
                | Inr parsed \<Rightarrow>
                    if json_depth parsed \<le> json_depth_limit R then JSONResponse parsed 200
                    else ServerError)))"

section \<open>What the specification talks about\<close>

text \<open>
  The input a request selects and its measured size: the raw byte count of a named upload,
  else the UTF-8 length of the inline text.
\<close>

definition measured :: "request \<Rightarrow> (string \<times> nat) option" where
  "measured req =
     (case named_file req of
        Some f \<Rightarrow> Some (''File'', length (contents f))
      | None \<Rightarrow>
          (case xml_text req of
             Some raw \<Rightarrow> Some (''Text'', length (encode_utf8 raw))
           | None \<Rightarrow> None))"

text \<open>
  The size the specification measures, written without the handlers' own functions: the
  number of raw bytes of the upload when a file is present and named, else the number of
  bytes UTF-8 needs for the inline text, one to four per code point.
\<close>

definition utf8_len :: "nat \<Rightarrow> nat" where
  "utf8_len c = (if c < 128 then 1 else if c < 2048 then 2 else if c < 65536 then 3 else 4)"

definition utf8_size :: "ustr \<Rightarrow> nat" where
  "utf8_size s = sum_list (map utf8_len s)"

definition selected_size :: "request \<Rightarrow> (string \<times> nat) option" where
  "selected_size req =
     (case xml_file req of
        Some f \<Rightarrow>
          if filename f = None \<or> filename f = Some [] then
            map_option (\<lambda>t. (''Text'', utf8_size t)) (xml_text req)
          else Some (''File'', length (contents f))
      | None \<Rightarrow> map_option (\<lambda>t. (''Text'', utf8_size t)) (xml_text req))"

text \<open>The size error a request must get: none up to 1,000,000 bytes.\<close>

definition size_verdict :: "request \<Rightarrow> response option" where
  "size_verdict req =
     (case measured req of
        Some (what, n) \<Rightarrow>
          if MAX_XML_BYTES < n then Some (JSONResponse (error_body (too_large what n)) 400)
          else None
      | None \<Rightarrow> None)"

text \<open>A response is a size error: status 400 and a message that opens as the two do.\<close>

definition is_size_error :: "response \<Rightarrow> bool" where
  "is_size_error r \<longleftrightarrow>
     (case r of
        JSONResponse (JObj [(k, JStr m)]) st \<Rightarrow>
          st = 400 \<and> k = py ''error'' \<and>
          (take 16 m = py ''File too large ('' \<or> take 16 m = py ''Text too large ('')
      | _ \<Rightarrow> False)"

section \<open>Concrete surroundings for the examples\<close>

text \<open>
  An interpreter whose decimal digits are the ASCII ones, with CPython's default limit of
  4300 digits for \<open>int\<close> of a string and its default recursion limit of 1000 as the
  bound on nesting.  It agrees with CPython on every message whose digits are ASCII.
\<close>

definition ascii_runtime :: runtime where
  "ascii_runtime =
     \<lparr>decimal = (\<lambda>c. if 48 \<le> c \<and> c \<le> 57 then Some (c - 48) else None),
      int_max_str_digits = 4300, json_depth_limit = 1000\<rparr>"

definition midnight :: world where
  "midnight = \<lparr>utcnow = 0\<rparr>"

text \<open>A request that carries inline text only, with the default indentation.\<close>

definition text_request :: "ustr \<Rightarrow> request" where
  "text_request t = \<lparr>request_obj = [], xml_text = Some t, xml_file = None, indent_spaces = 4\<rparr>"

text \<open>A request that uploads a file under a name.\<close>

definition file_request :: "ustr \<Rightarrow> byte list \<Rightarrow> request" where
  "file_request name bs =
     \<lparr>request_obj = [], xml_text = None,
      xml_file = Some \<lparr>filename = Some name, content_type = None, contents = bs\<rparr>,
      indent_spaces = 4\<rparr>"

text \<open>Libraries that reject every document with the same diagnostic.\<close>

definition rejecting_libs :: "ustr \<Rightarrow> libs" where
  "rejecting_libs msg =
     \<lparr>defused_fromstring = (\<lambda>b. Inl msg), minidom_pretty = (\<lambda>b ind. Inl msg),
      et_compact = (\<lambda>s. Inl msg), xmltodict_parse = (\<lambda>s. Inl msg)\<rparr>"

text \<open>The string a request hands over once its source is chosen and decoded.\<close>

definition decoded_input :: "request \<Rightarrow> ustr option" where
  "decoded_input req =
     (case named_file req of
        Some f \<Rightarrow> (case decode_contents (contents f) of Inr raw \<Rightarrow> Some raw | Inl e \<Rightarrow> None)
      | None \<Rightarrow> xml_text req)"

definition empty_content_error :: response where
  "empty_content_error = JSONResponse (error_body (py ''Empty XML content.'')) 400"

text \<open>
  Two sets of libraries that may differ only on strings that are empty or not stripped.
\<close>

definition agree_on_nonempty :: "libs \<Rightarrow> libs \<Rightarrow> bool" where
  "agree_on_nonempty L L' \<longleftrightarrow>
     (\<forall>s. s \<noteq> [] \<and> strip s = s \<longrightarrow>
        defused_fromstring L (encode_utf8 s) = defused_fromstring L' (encode_utf8 s) \<and>
        minidom_pretty L (encode_utf8 s) = minidom_pretty L' (encode_utf8 s) \<and>
        et_compact L s = et_compact L' s \<and>
        xmltodict_parse L s = xmltodict_parse L' s)"

text \<open>
  Two requests with the same inline text, the same upload (name and content) and the same
  indentation; they may differ in everything else the framework passes along.
\<close>

definition same_inputs :: "request \<Rightarrow> request \<Rightarrow> bool" where
  "same_inputs r r' \<longleftrightarrow>
     xml_text r = xml_text r' \<and>
     map_option (\<lambda>f. (filename f, contents f)) (xml_file r)
       = map_option (\<lambda>f. (filename f, contents f)) (xml_file r') \<and>
     indent_spaces r = indent_spaces r'"

text \<open>
  The outcomes of the four library calls on one document, as data; the table refuses every
  other document.  \<open>ind\<close> is the indentation the pretty-printer was run with.
\<close>

definition known_document :: "ustr \<Rightarrow> ustr \<Rightarrow> ustr \<Rightarrow> ustr \<Rightarrow> json \<Rightarrow> libs" where
  "known_document doc ind pretty compact mapping =
     \<lparr>defused_fromstring =
        (\<lambda>b. if b = encode_utf8 doc then Inr () else Inl (py ''document not in the table'')),
      minidom_pretty =
        (\<lambda>b i. if b = encode_utf8 doc \<and> i = ind then Inr pretty
               else Inl (py ''document not in the table'')),
      et_compact =
        (\<lambda>s. if s = doc then Inr compact else Inl (py ''document not in the table'')),
      xmltodict_parse =
        (\<lambda>s. if s = doc then Inr mapping else Inl (py ''document not in the table''))\<rparr>"


text \<open>
  A small document and what \<open>toprettyxml\<close> prints for it with four spaces: the
  declaration, then one element per line.
\<close>

definition xml_decl :: ustr where
  "xml_decl = py ''<?xml version='' @ [34] @ py ''1.0'' @ [34] @ py '' ?>''"

definition doc_ab :: ustr where
  "doc_ab = py ''<a><b>1</b></a>''"

definition pretty_ab :: ustr where
  "pretty_ab = xml_decl @ [10] @ py ''<a>'' @ [10] @ py ''    <b>1</b>'' @ [10] @ py ''</a>'' @ [10]"

definition libs_ab :: libs where
  "libs_ab = known_document doc_ab (replicate 4 32) pretty_ab doc_ab
     (JObj [(py ''a'', JObj [(py ''b'', JStr (py ''1''))])])"

text \<open>
  The error object of section 4.6: an \<open>error\<close> string, alone or followed by a
  \<open>line\<close> that is an integer or null.
\<close>

definition is_error_object :: "json \<Rightarrow> bool" where
  "is_error_object j \<longleftrightarrow>
     (case j of
        JObj [(k, JStr m)] \<Rightarrow> k = py ''error''
      | JObj [(k, JStr m), (k', l)] \<Rightarrow>
          k = py ''error'' \<and> k' = py ''line'' \<and>
          (case l of JNull \<Rightarrow> True | JInt n \<Rightarrow> True | _ \<Rightarrow> False)
      | _ \<Rightarrow> False)"

text \<open>The success payload of \<open>/xml/format\<close> and \<open>/xml/minify\<close>.\<close>

definition is_pretty_payload :: "json \<Rightarrow> bool" where
  "is_pretty_payload j \<longleftrightarrow> (case j of JObj [(k, JStr s)] \<Rightarrow> k = py ''pretty'' | _ \<Rightarrow> False)"

text \<open>
  A response is exactly one of the two: a 200 whose body is no error object, or a 400
  whose body is one.
\<close>

definition success_or_error :: "response \<Rightarrow> bool" where
  "success_or_error r \<longleftrightarrow>
     (case r of
        JSONResponse j st \<Rightarrow>
          (st = 200 \<and> \<not> is_error_object j) \<or> (st = 400 \<and> is_error_object j)
      | ServerError \<Rightarrow> False)"

text \<open>The same with the success body known to be the \<open>pretty\<close> payload.\<close>

definition pretty_or_error :: "response \<Rightarrow> bool" where
  "pretty_or_error r \<longleftrightarrow>
     (case r of
        JSONResponse j st \<Rightarrow>
          (st = 200 \<and> is_pretty_payload j \<and> \<not> is_error_object j) \<or>
          (st = 400 \<and> is_error_object j \<and> \<not> is_pretty_payload j)
      | ServerError \<Rightarrow> False)"

definition error_response :: "response \<Rightarrow> bool" where
  "error_response r \<longleftrightarrow>
     (case r of JSONResponse j st \<Rightarrow> st = 400 \<and> is_error_object j | ServerError \<Rightarrow> False)"

text \<open>
  A document whose root element is called \<open>error\<close>, and what the libraries make of
  it: \<open>xmltodict\<close> maps the root tag to the element's text.
\<close>

definition doc_error :: ustr where
  "doc_error = py ''<error>Empty XML content.</error>''"

definition libs_error :: libs where
  "libs_error = known_document doc_error (replicate 4 32)
     (xml_decl @ [10] @ doc_error @ [10]) doc_error
     (JObj [(py ''error'', JStr (py ''Empty XML content.''))])"

text \<open>
  The pattern of the specification, read on its own: \<open>s\<close> opens with the word
  "line" in any letter case, then at least one whitespace character, then the digits
  \<open>ds\<close>, which are not followed by a further digit.
\<close>

definition line_match :: "runtime \<Rightarrow> ustr \<Rightarrow> ustr \<Rightarrow> bool" where
  "line_match R s ds \<longleftrightarrow>
     (\<exists>w sp rest. s = w @ sp @ ds @ rest \<and> ci_line w \<and>
        sp \<noteq> [] \<and> (\<forall>c\<in>set sp. isspace c) \<and>
        ds \<noteq> [] \<and> (\<forall>c\<in>set ds. isdec R c) \<and>
        (rest = [] \<or> \<not> isdec R (hd rest)))"

text \<open>The leftmost occurrence in \<open>msg\<close> starts at index \<open>i\<close> and has the digits \<open>ds\<close>.\<close>

definition first_match :: "runtime \<Rightarrow> ustr \<Rightarrow> nat \<Rightarrow> ustr \<Rightarrow> bool" where
  "first_match R msg i ds \<longleftrightarrow>
     i \<le> length msg \<and> line_match R (drop i msg) ds \<and>
     (\<forall>j<i. \<forall>ds'. \<not> line_match R (drop j msg) ds')"

text \<open>No code point is whitespace and a decimal digit at once, as in Unicode.\<close>

definition classes_disjoint :: "runtime \<Rightarrow> bool" where
  "classes_disjoint R \<longleftrightarrow> (\<forall>c. isspace c \<longrightarrow> decimal R c = None)"

text \<open>The digits are few enough for \<open>int\<close> to convert them.\<close>

definition within_int_limit :: "runtime \<Rightarrow> ustr \<Rightarrow> bool" where
  "within_int_limit R ds \<longleftrightarrow> int_max_str_digits R = 0 \<or> length ds \<le> int_max_str_digits R"

text \<open>
  A document that declares an external entity whose system identifier reads "line" and
  4301 times the digit 1, and the diagnostic of the validator, which refuses entity
  declarations and quotes the identifier.
\<close>

definition doc_entity :: ustr where
  "doc_entity =
     py ''<!DOCTYPE a [<!ENTITY x SYSTEM '' @ [34] @ py ''line '' @ replicate 4301 49 @ [34]
       @ py ''>]><a/>''"

definition msg_entity :: ustr where
  "msg_entity =
     py ''EntitiesForbidden(name='' @ [39] @ py ''x'' @ [39] @ py '', system_id='' @ [39]
       @ py ''line '' @ replicate 4301 49 @ [39] @ py '', public_id=None)''"

text \<open>The malformed document of the specification and the parser's diagnostic for it.\<close>

definition doc_mismatch :: ustr where
  "doc_mismatch = py ''<a><b></a>''"

definition msg_mismatch :: ustr where
  "msg_mismatch = py ''mismatched tag: line 1, column 8''"

section \<open>The conversion to a mapping\<close>

text \<open>
  A parsed document as the converter sees it: elements with their attributes in order,
  and the character data the library keeps.
\<close>

datatype node = Text ustr | Element ustr "(ustr \<times> ustr) list" "node list"

text \<open>The two markers of section 4.5, a policy of the converter rather than fixed text.\<close>

record conventions =
  attr_prefix :: ustr
  cdata_key :: ustr

fun is_element :: "node \<Rightarrow> bool" where
  "is_element (Element t as cs) = True"
| "is_element (Text x) = False"

fun tag_of :: "node \<Rightarrow> ustr" where
  "tag_of (Element t as cs) = t"
| "tag_of (Text x) = []"

fun text_of :: "node list \<Rightarrow> ustr" where
  "text_of [] = []"
| "text_of (Text x # cs) = x @ text_of cs"
| "text_of (Element t as ds # cs) = text_of cs"

text \<open>
  Modelled from the spec: the step of \<open>xmltodict.parse\<close> (third-party code, absent
  from src/) that adds a member to a mapping.  Section 4.5: repeated sibling tags at the
  same level collapse into an ordered list in document order rather than overwriting.
\<close>

fun push_data :: "ustr \<Rightarrow> json \<Rightarrow> (ustr \<times> json) list \<Rightarrow> (ustr \<times> json) list" where
  "push_data k v [] = [(k, v)]"
| "push_data k v ((k', x) # m) =
     (if k' = k then (k', (case x of JList xs \<Rightarrow> JList (xs @ [v]) | _ \<Rightarrow> JList [x, v])) # m
      else (k', x) # push_data k v m)"

text \<open>
  Modelled from the spec: the value \<open>xmltodict.parse\<close> (third-party code, absent
  from src/) gives an element.  Section 4.5: a scalar, the text content, when the element
  has no children and no attributes; otherwise a sub-mapping of the attributes under
  prefixed keys, the child elements under their tags, and the text under the text key.
\<close>

fun value_of :: "conventions \<Rightarrow> node \<Rightarrow> json" where
  "value_of cv (Text x) = JStr x"
| "value_of cv (Element t as cs) =
     (let members =
            foldl (\<lambda>m c. push_data (tag_of c) (value_of cv c) m)
              (map (\<lambda>(k, v). (attr_prefix cv @ k, JStr v)) as) (filter is_element cs)
      in if as = [] \<and> filter is_element cs = [] then
           (if text_of cs = [] then JNull else JStr (text_of cs))
         else JObj (if text_of cs = [] then members
                    else push_data (cdata_key cv) (JStr (text_of cs)) members))"

text \<open>
  Modelled from the spec: the result of \<open>xmltodict.parse\<close> (third-party code, absent
  from src/) on a document with the given root.  Section 4.5: the document's single root
  element becomes the sole top-level key.
\<close>

definition to_mapping :: "conventions \<Rightarrow> node \<Rightarrow> json" where
  "to_mapping cv root = JObj [(tag_of root, value_of cv root)]"

text \<open>The markers \<open>xmltodict\<close> uses unless told otherwise.\<close>

definition xmltodict_conventions :: conventions where
  "xmltodict_conventions = \<lparr>attr_prefix = py ''@'', cdata_key = py ''#text''\<rparr>"

text \<open>The example of section 8 as a tree.\<close>

definition items_tree :: node where
  "items_tree = Element (py ''root'') []
     [Element (py ''item'') [] [Text (py ''1'')], Element (py ''item'') [] [Text (py ''2'')]]"

text \<open>
  What section 4.5 asks of the children with one tag: nothing when there is none, the
  value itself when there is one, the list of the values in document order otherwise.
\<close>

definition collapsed :: "json list \<Rightarrow> json option" where
  "collapsed vs = (case vs of [] \<Rightarrow> None | [v] \<Rightarrow> Some v | _ \<Rightarrow> Some (JList vs))"

definition siblings :: "ustr \<Rightarrow> node list \<Rightarrow> node list" where
  "siblings k cs = filter (\<lambda>c. tag_of c = k) (filter is_element cs)"

text \<open>The example of section 8 as text, and the libraries' outcomes on it.\<close>

definition doc_items :: ustr where
  "doc_items = py ''<root><item>1</item><item>2</item></root>''"

definition libs_items :: libs where
  "libs_items = known_document doc_items (replicate 4 32)
     (xml_decl @ [10] @ py ''<root>'' @ [10] @ py ''    <item>1</item>'' @ [10]
        @ py ''    <item>2</item>'' @ [10] @ py ''</root>'' @ [10])
     doc_items (to_mapping xmltodict_conventions items_tree)"

text \<open>
  A document of \<open>n\<close> elements \<open>a\<close> nested in one another, and the mapping
  \<open>xmltodict\<close> returns for it: \<open>n\<close> mappings nested in one another around null.
\<close>

fun deep_doc :: "nat \<Rightarrow> ustr" where
  "deep_doc 0 = []"
| "deep_doc (Suc n) = py ''<a>'' @ deep_doc n @ py ''</a>''"

fun deep_mapping :: "nat \<Rightarrow> json" where
  "deep_mapping 0 = JNull"
| "deep_mapping (Suc n) = JObj [(py ''a'', deep_mapping n)]"

text \<open>
  The outcomes of the validator and of \<open>xmltodict\<close> on one document, as data; the table
  holds nothing else.
\<close>

definition convert_table :: "ustr \<Rightarrow> json \<Rightarrow> libs" where
  "convert_table doc mapping =
     \<lparr>defused_fromstring =
        (\<lambda>b. if b = encode_utf8 doc then Inr () else Inl (py ''document not in the table'')),
      minidom_pretty = (\<lambda>b i. Inl (py ''document not in the table'')),
      et_compact = (\<lambda>s. Inl (py ''document not in the table'')),
      xmltodict_parse =
        (\<lambda>s. if s = doc then Inr mapping else Inl (py ''document not in the table''))\<rparr>"





section \<open>Properties\<close>

lemma decode_contents_Inr: "\<exists>raw. decode_contents bs = Inr raw"
  by (simp add: decode_contents_def decode_latin1_ignore_def split: sum.splits)

lemma is_size_error_too_large:
  "what = ''File'' \<or> what = ''Text'' \<Longrightarrow> is_size_error (JSONResponse (error_body (too_large what n)) 400)"
  by (auto simp add: is_size_error_def error_body_def too_large_def py_def)

lemma not_size_error_plain:
  "m = py ''No XML provided. Paste XML or upload an .xml file.'' \<or> m = py ''No XML provided.''
     \<or> m = py ''Empty XML content.'' \<Longrightarrow> \<not> is_size_error (JSONResponse (error_body m) 400)"
  by (auto simp add: is_size_error_def error_body_def py_def)

lemma measured_what: "measured req = Some (what, n) \<Longrightarrow> what = ''File'' \<or> what = ''Text''"
  by (auto simp: measured_def split: option.splits)

lemma pick_source_verdict:
  "size_verdict req = Some r \<Longrightarrow> pick_source m req = Inl r"
  by (auto simp: size_verdict_def measured_def pick_source_def split: option.splits if_splits)

lemma pick_source_no_verdict:
  assumes "size_verdict req = None"
    and "m = py ''No XML provided. Paste XML or upload an .xml file.'' \<or> m = py ''No XML provided.''"
  shows "case pick_source m req of Inl r \<Rightarrow> \<not> is_size_error r | Inr raw \<Rightarrow> True"
proof (cases "named_file req")
  case (Some f)
  with assms(1) have le: "\<not> MAX_XML_BYTES < length (contents f)"
    by (simp add: size_verdict_def measured_def split: if_splits)
  obtain raw where "decode_contents (contents f) = Inr raw"
    using decode_contents_Inr by blast
  with Some le show ?thesis by (simp add: pick_source_def)
next
  case None
  show ?thesis
  proof (cases "xml_text req")
    case N2: None
    with None assms(2) show ?thesis
      using not_size_error_plain [of m] by (auto simp add: pick_source_def)
  next
    case (Some raw)
    with None assms(1) show ?thesis
      by (simp add: pick_source_def size_verdict_def measured_def split: if_splits)
  qed
qed

lemma read_input_verdict:
  "size_verdict req = Some r \<Longrightarrow> read_input m req = Inl r"
  by (simp add: read_input_def pick_source_verdict)

lemma read_input_no_verdict:
  assumes "size_verdict req = None"
    and "m = py ''No XML provided. Paste XML or upload an .xml file.'' \<or> m = py ''No XML provided.''"
  shows "case read_input m req of Inl r \<Rightarrow> \<not> is_size_error r | Inr raw \<Rightarrow> True"
  using pick_source_no_verdict [OF assms] not_size_error_plain [of "py ''Empty XML content.''"]
  by (auto simp: read_input_def split: sum.splits)

lemma size_verdict_is_size_error: "size_verdict req = Some r \<Longrightarrow> is_size_error r"
  using measured_what [of req]
  by (auto simp: size_verdict_def is_size_error_too_large split: option.splits if_splits)

lemma after_parse_not_size_error:
  "\<not> is_size_error (JSONResponse (parse_error_body msg l) 400)"
  "\<not> is_size_error (JSONResponse (error_body (py ''Failed to pretty-print XML: '' @ msg)) 400)"
  "\<not> is_size_error (JSONResponse (error_body (py ''XML minify error: '' @ msg)) 400)"
  "\<not> is_size_error (JSONResponse (error_body (py ''XML->JSON parse error: '' @ msg)) 400)"
  "\<not> is_size_error (JSONResponse j 200)"
  "\<not> is_size_error ServerError"
  by (simp_all add: is_size_error_def error_body_def parse_error_body_def py_def
      split: json.splits list.splits prod.splits)

lemma length_encode_utf8: "length (encode_utf8 s) = utf8_size s"
  by (induction s) (simp_all add: encode_utf8_def encode_cp_def utf8_size_def utf8_len_def)

lemma measured_selected_size: "measured req = selected_size req"
  by (auto simp: measured_def selected_size_def named_file_def length_encode_utf8
      split: option.splits)

lemma str_nat_numeral: "str_nat 1000000 = py ''1000000''"
  by (simp add: str_nat.simps py_def)

lemma too_large_text:
  "too_large what n = py what @ py '' too large ('' @ str_nat n @ py '' bytes). Max 1000000 bytes.''"
  by (simp add: too_large_def MAX_XML_BYTES_def str_nat_numeral py_def)

lemma size_verdict_selected:
  "size_verdict req = Some r \<longleftrightarrow>
     (\<exists>what n. selected_size req = Some (what, n) \<and> 1000000 < n \<and>
        r = JSONResponse (error_body (too_large what n)) 400)"
  by (auto simp: size_verdict_def measured_selected_size MAX_XML_BYTES_def
      split: option.splits if_splits)

lemma handlers_not_size_error:
  assumes "size_verdict req = None"
  shows "\<not> is_size_error (xml_format L R w req)"
    and "\<not> is_size_error (xml_minify L R w req)"
    and "\<not> is_size_error (xml_convert L R w req)"
proof -
  show "\<not> is_size_error (xml_format L R w req)"
    using read_input_no_verdict [OF assms, of "py ''No XML provided. Paste XML or upload an .xml file.''"]
    by (auto simp: xml_format_def after_parse_not_size_error split: sum.splits)
  show "\<not> is_size_error (xml_minify L R w req)"
    using read_input_no_verdict [OF assms, of "py ''No XML provided.''"]
    by (auto simp: xml_minify_def after_parse_not_size_error split: sum.splits)
  show "\<not> is_size_error (xml_convert L R w req)"
    using read_input_no_verdict [OF assms, of "py ''No XML provided.''"]
    by (auto simp: xml_convert_def after_parse_not_size_error split: sum.splits)
qed

text \<open>
  C5.  On each of the three endpoints the response is a size error exactly when the
  selected input measures more than 1,000,000 bytes: the raw bytes of the upload when a
  file is present and named, else the UTF-8 bytes of the inline text.  The error is the
  status 400 with the message "File too large (n bytes). Max 1000000 bytes." or
  "Text too large (n bytes). Max 1000000 bytes.", where n is the measured count; it is
  fixed by the request alone, whatever the parsers would say, so the check comes before
  any parsing.  An input of exactly 1,000,000 bytes gets no size error.
\<close>

theorem size_check:
  "(is_size_error (xml_format L R w req) \<longleftrightarrow>
      (\<exists>what n. selected_size req = Some (what, n) \<and> 1000000 < n)) \<and>
   (is_size_error (xml_minify L R w req) \<longleftrightarrow>
      (\<exists>what n. selected_size req = Some (what, n) \<and> 1000000 < n)) \<and>
   (is_size_error (xml_convert L R w req) \<longleftrightarrow>
      (\<exists>what n. selected_size req = Some (what, n) \<and> 1000000 < n)) \<and>
   (\<forall>what n. selected_size req = Some (what, n) \<and> 1000000 < n \<longrightarrow>
      xml_format L R w req
        = JSONResponse (JObj [(py ''error'',
            JStr (py what @ py '' too large ('' @ str_nat n @ py '' bytes). Max 1000000 bytes.''))])
            400 \<and>
      xml_minify L R w req = xml_format L R w req \<and>
      xml_convert L R w req = xml_format L R w req)"
proof (cases "size_verdict req")
  case (Some r)
  then obtain what n where sel: "selected_size req = Some (what, n)" "1000000 < n"
    and r: "r = JSONResponse (error_body (too_large what n)) 400"
    using size_verdict_selected by blast
  have h: "xml_format L R w req = r" "xml_minify L R w req = r" "xml_convert L R w req = r"
    by (simp_all add: xml_format_def xml_minify_def xml_convert_def read_input_verdict [OF Some])
  have e: "is_size_error r" using Some by (rule size_verdict_is_size_error)
  have t: "r = JSONResponse (JObj [(py ''error'',
      JStr (py what @ py '' too large ('' @ str_nat n @ py '' bytes). Max 1000000 bytes.''))]) 400"
    unfolding r error_body_def too_large_text ..
  show ?thesis
    unfolding h using e sel t by auto
next
  case None
  then have no: "\<not> (\<exists>what n. selected_size req = Some (what, n) \<and> 1000000 < n)"
    using size_verdict_selected [of req] by (metis option.distinct(1))
  with handlers_not_size_error [OF None, of L R w] show ?thesis by blast
qed

lemma length_encode_utf8_replicate:
  "c < 128 \<Longrightarrow> length (encode_utf8 (replicate n c)) = n"
  by (induction n) (simp_all add: encode_utf8_def encode_cp_def)

lemma measured_text_request:
  "measured (text_request t) = Some (''Text'', length (encode_utf8 t))"
  by (simp add: measured_def text_request_def named_file_def)

lemma utf8_size_replicate: "utf8_size (replicate n c) = n * utf8_len c"
  by (induction n) (simp_all add: utf8_size_def)

lemma selected_size_text_request: "selected_size (text_request t) = Some (''Text'', utf8_size t)"
  by (simp add: selected_size_def text_request_def)

lemma selected_size_upload:
  "name \<noteq> [] \<Longrightarrow>
     selected_size ((file_request name bs)\<lparr>xml_text := t\<rparr>) = Some (''File'', length bs)"
  by (simp add: selected_size_def file_request_def)

theorem size_check_witness:
  "xml_format (rejecting_libs []) ascii_runtime midnight
      ((file_request (py ''a.xml'') (replicate 1000001 97))\<lparr>xml_text := Some (py ''<a/>'')\<rparr>)
     = JSONResponse (JObj [(py ''error'',
         JStr (py ''File too large (1000001 bytes). Max 1000000 bytes.''))]) 400 \<and>
   \<not> is_size_error (xml_minify (rejecting_libs []) ascii_runtime midnight
      ((file_request (py ''a.xml'') (replicate 1000000 97))\<lparr>xml_text := Some (py ''<a/>'')\<rparr>)) \<and>
   xml_convert (rejecting_libs []) ascii_runtime midnight (text_request (replicate 500001 233))
     = JSONResponse (JObj [(py ''error'',
         JStr (py ''Text too large (1000002 bytes). Max 1000000 bytes.''))]) 400 \<and>
   is_size_error (xml_convert (rejecting_libs []) ascii_runtime midnight
      (text_request (replicate 500001 233))) \<and>
   \<not> is_size_error (xml_format (rejecting_libs []) ascii_runtime midnight
      (text_request (replicate 500000 233)))"
proof -
  let ?up = "\<lambda>n. (file_request (py ''a.xml'') (replicate n 97))\<lparr>xml_text := Some (py ''<a/>'')\<rparr>"
  have name: "py ''a.xml'' \<noteq> []" by (simp add: py_def)
  have f1: "selected_size (?up 1000001) = Some (''File'', 1000001)"
    by (simp add: selected_size_upload [OF name])
  have f0: "selected_size (?up 1000000) = Some (''File'', 1000000)"
    by (simp add: selected_size_upload [OF name])
  have t1: "selected_size (text_request (replicate 500001 233)) = Some (''Text'', 1000002)"
    by (simp add: selected_size_text_request utf8_size_replicate utf8_len_def)
  have t0: "selected_size (text_request (replicate 500000 233)) = Some (''Text'', 1000000)"
    by (simp add: selected_size_text_request utf8_size_replicate utf8_len_def)
  have m1: "py ''File'' @ py '' too large ('' @ str_nat 1000001 @ py '' bytes). Max 1000000 bytes.''
      = py ''File too large (1000001 bytes). Max 1000000 bytes.''"
    by (simp add: str_nat.simps py_def)
  have m2: "py ''Text'' @ py '' too large ('' @ str_nat 1000002 @ py '' bytes). Max 1000000 bytes.''
      = py ''Text too large (1000002 bytes). Max 1000000 bytes.''"
    by (simp add: str_nat.simps py_def)
  note a = size_check [of "rejecting_libs []" ascii_runtime midnight "?up 1000001"]
  note b = size_check [of "rejecting_libs []" ascii_runtime midnight "?up 1000000"]
  note c = size_check [of "rejecting_libs []" ascii_runtime midnight
      "text_request (replicate 500001 233)"]
  note d = size_check [of "rejecting_libs []" ascii_runtime midnight
      "text_request (replicate 500000 233)"]
  have 1: "xml_format (rejecting_libs []) ascii_runtime midnight (?up 1000001)
     = JSONResponse (JObj [(py ''error'',
         JStr (py ''File too large (1000001 bytes). Max 1000000 bytes.''))]) 400"
    using a f1 by (auto simp: m1)
  have 2: "\<not> is_size_error (xml_minify (rejecting_libs []) ascii_runtime midnight (?up 1000000))"
    using b f0 by auto
  have 3: "xml_convert (rejecting_libs []) ascii_runtime midnight (text_request (replicate 500001 233))
     = JSONResponse (JObj [(py ''error'',
         JStr (py ''Text too large (1000002 bytes). Max 1000000 bytes.''))]) 400"
    using c t1 by (auto simp: m2)
  have 4: "is_size_error (xml_convert (rejecting_libs []) ascii_runtime midnight
      (text_request (replicate 500001 233)))"
    using c t1 by auto
  have 5: "\<not> is_size_error (xml_format (rejecting_libs []) ascii_runtime midnight
      (text_request (replicate 500000 233)))"
    using d t0 by auto
  from 1 2 3 4 5 show ?thesis by (intro conjI)
qed

lemma strip_prefix: "\<exists>sp. dropWhile isspace s = strip s @ sp"
proof -
  let ?t = "dropWhile isspace s"
  have "strip s @ rev (takeWhile isspace (rev ?t))
      = rev (takeWhile isspace (rev ?t) @ dropWhile isspace (rev ?t))"
    by (simp only: strip_def rev_append)
  also have "\<dots> = rev (rev ?t)" by (simp only: takeWhile_dropWhile_id)
  finally have "?t = strip s @ rev (takeWhile isspace (rev ?t))" by simp
  then show ?thesis by blast
qed

lemma strip_hd: assumes "strip s \<noteq> []" shows "\<not> isspace (hd (strip s))"
proof -
  obtain sp where sp: "dropWhile isspace s = strip s @ sp" using strip_prefix by blast
  with assms have ne: "dropWhile isspace s \<noteq> []" by simp
  have "hd (dropWhile isspace s) = hd (strip s)" using sp assms by simp
  with hd_dropWhile [OF ne] show ?thesis by simp
qed

lemma strip_last: assumes "strip s \<noteq> []" shows "\<not> isspace (last (strip s))"
proof -
  let ?d = "dropWhile isspace (rev (dropWhile isspace s))"
  have d: "?d \<noteq> []" using assms by (simp add: strip_def)
  have "last (strip s) = hd ?d" using d by (simp add: strip_def last_rev)
  with hd_dropWhile [OF d] show ?thesis by simp
qed

lemma strip_fixed:
  assumes "s \<noteq> []" "\<not> isspace (hd s)" "\<not> isspace (last s)"
  shows "strip s = s"
proof -
  from assms(1,2) have 1: "dropWhile isspace s = s" by (cases s) simp_all
  from assms(1) have "rev s \<noteq> []" by simp
  moreover from assms(1,3) have "\<not> isspace (hd (rev s))" by (simp add: hd_rev)
  ultimately have 2: "dropWhile isspace (rev s) = rev s" by (cases "rev s") simp_all
  show ?thesis by (simp add: strip_def 1 2)
qed

lemma strip_Nil: "strip [] = []"
  by (simp add: strip_def)

lemma strip_idem: "strip (strip s) = strip s"
proof (cases "strip s = []")
  case True
  then show ?thesis by (simp only: strip_Nil)
next
  case False
  then show ?thesis using strip_fixed strip_hd strip_last by blast
qed

lemma read_input_stripped:
  "read_input m req = Inr s \<Longrightarrow> s \<noteq> [] \<and> strip s = s"
  by (auto simp: read_input_def strip_idem split: sum.splits if_splits)

lemma pick_source_decoded:
  "size_verdict req = None \<Longrightarrow> decoded_input req = Some raw \<Longrightarrow> pick_source m req = Inr raw"
  by (auto simp: size_verdict_def measured_def decoded_input_def pick_source_def
      split: option.splits sum.splits if_splits)

lemma read_input_empty:
  "size_verdict req = None \<Longrightarrow> decoded_input req = Some raw \<Longrightarrow> strip raw = []
     \<Longrightarrow> read_input m req = Inl empty_content_error"
  by (simp add: read_input_def pick_source_decoded empty_content_error_def)

lemma handlers_agree:
  assumes "agree_on_nonempty L L'"
  shows "xml_format L R w req = xml_format L' R w req"
    and "xml_minify L R w req = xml_minify L' R w req"
    and "xml_convert L R w req = xml_convert L' R w req"
proof -
  have a: "\<And>m s. read_input m req = Inr s \<Longrightarrow>
        defused_fromstring L (encode_utf8 s) = defused_fromstring L' (encode_utf8 s) \<and>
        minidom_pretty L (encode_utf8 s) = minidom_pretty L' (encode_utf8 s) \<and>
        et_compact L s = et_compact L' s \<and>
        xmltodict_parse L s = xmltodict_parse L' s"
    using assms read_input_stripped unfolding agree_on_nonempty_def by blast
  show "xml_format L R w req = xml_format L' R w req"
    using a [of "py ''No XML provided. Paste XML or upload an .xml file.''"]
    by (simp add: xml_format_def split: sum.splits)
  show "xml_minify L R w req = xml_minify L' R w req"
    using a [of "py ''No XML provided.''"]
    by (simp add: xml_minify_def split: sum.splits)
  show "xml_convert L R w req = xml_convert L' R w req"
    using a [of "py ''No XML provided.''"]
    by (simp add: xml_convert_def split: sum.splits)
qed

text \<open>
  C7, amended.  When the selected input is within the size limit and is empty or all
  whitespace once decoded, each of the three endpoints answers 400 with
  "Empty XML content.".  The string handed on by input resolution is never empty and is
  its own stripped form, and the libraries are only ever asked about such strings: two
  sets of libraries that agree on them give the same responses.
\<close>

theorem empty_input_rejected:
  "(size_verdict req = None \<and> decoded_input req = Some raw \<and> strip raw = [] \<longrightarrow>
      xml_format L R w req = empty_content_error \<and>
      xml_minify L R w req = empty_content_error \<and>
      xml_convert L R w req = empty_content_error) \<and>
   (\<forall>s. read_input m req = Inr s \<longrightarrow> s \<noteq> [] \<and> strip s = s) \<and>
   (agree_on_nonempty L L' \<longrightarrow>
      xml_format L R w req = xml_format L' R w req \<and>
      xml_minify L R w req = xml_minify L' R w req \<and>
      xml_convert L R w req = xml_convert L' R w req)"
  using read_input_stripped [of m req] handlers_agree [of L L' R w req]
  by (simp add: xml_format_def xml_minify_def xml_convert_def read_input_empty)


lemma isspace_32: "isspace 32" by (simp add: isspace_def)

lemma strip_spaces: "strip (replicate n 32) = []"
  by (simp add: strip_def isspace_32)

lemma too_large_not_empty_content:
  "JSONResponse (error_body (too_large ''Text'' n)) 400 \<noteq> empty_content_error"
  by (simp add: empty_content_error_def error_body_def too_large_def py_def)

text \<open>
  C7 as stated fails: inline text of 1,000,001 spaces is all whitespace, yet every endpoint
  answers with the size error, since the size check comes first.
\<close>

theorem empty_input_counterexample:
  "strip (replicate 1000001 32) = [] \<and>
   xml_format (rejecting_libs []) ascii_runtime midnight (text_request (replicate 1000001 32))
     \<noteq> empty_content_error \<and>
   xml_minify (rejecting_libs []) ascii_runtime midnight (text_request (replicate 1000001 32))
     \<noteq> empty_content_error \<and>
   xml_convert (rejecting_libs []) ascii_runtime midnight (text_request (replicate 1000001 32))
     \<noteq> empty_content_error"
proof -
  have "size_verdict (text_request (replicate 1000001 32))
      = Some (JSONResponse (error_body (too_large ''Text'' 1000001)) 400)"
    by (simp add: size_verdict_def measured_text_request length_encode_utf8_replicate
        MAX_XML_BYTES_def)
  then have "\<And>m. read_input m (text_request (replicate 1000001 32))
      = Inl (JSONResponse (error_body (too_large ''Text'' 1000001)) 400)"
    by (rule read_input_verdict)
  then show ?thesis
    by (simp add: xml_format_def xml_minify_def xml_convert_def strip_spaces
        too_large_not_empty_content)
qed

lemma agree_except_empty:
  "agree_on_nonempty (rejecting_libs [])
     ((rejecting_libs []) \<lparr>et_compact := (\<lambda>s. if s = [] then Inr [] else Inl [])\<rparr>)"
  by (simp add: agree_on_nonempty_def rejecting_libs_def)

theorem empty_input_rejected_witness:
  "xml_format (rejecting_libs []) ascii_runtime midnight (text_request [32, 10, 9])
     = empty_content_error \<and>
   read_input (py ''No XML provided.'') (text_request (py '' <a/> '')) = Inr (py ''<a/>'') \<and>
   strip (py ''<a/>'') = py ''<a/>'' \<and>
   xml_minify (rejecting_libs []) ascii_runtime midnight (text_request (py '' <a/> ''))
     = xml_minify ((rejecting_libs []) \<lparr>et_compact := (\<lambda>s. if s = [] then Inr [] else Inl [])\<rparr>)
         ascii_runtime midnight (text_request (py '' <a/> ''))"
proof -
  have v: "size_verdict (text_request [32, 10, 9]) = None"
    by (simp add: size_verdict_def measured_text_request encode_utf8_def encode_cp_def
        MAX_XML_BYTES_def)
  have d: "decoded_input (text_request [32, 10, 9]) = Some [32, 10, 9]"
    by (simp add: decoded_input_def text_request_def named_file_def)
  have s: "strip [32, 10, 9] = []"
    by (simp add: strip_def isspace_def)
  have r: "read_input (py ''No XML provided.'') (text_request (py '' <a/> '')) = Inr (py ''<a/>'')"
    by (simp add: read_input_def pick_source_def text_request_def named_file_def py_def
        encode_utf8_def encode_cp_def MAX_XML_BYTES_def strip_def isspace_def)
  show ?thesis
    using empty_input_rejected [of "text_request [32, 10, 9]" "[32, 10, 9]" "rejecting_libs []"
        ascii_runtime midnight "py ''No XML provided.''" "rejecting_libs []"]
      empty_input_rejected [of "text_request (py '' <a/> '')" "[]" "rejecting_libs []"
        ascii_runtime midnight "py ''No XML provided.''"
        "(rejecting_libs []) \<lparr>et_compact := (\<lambda>s. if s = [] then Inr [] else Inl [])\<rparr>"]
      v d s r agree_except_empty
    by simp
qed

lemma pick_source_same:
  assumes "same_inputs r r'"
  shows "pick_source m r = pick_source m r'"
proof (cases "xml_file r")
  case None
  with assms have "xml_file r' = None" "xml_text r = xml_text r'"
    by (simp_all add: same_inputs_def)
  with None show ?thesis by (simp add: pick_source_def named_file_def)
next
  case (Some f)
  with assms obtain f' where f': "xml_file r' = Some f'" "filename f' = filename f"
    "contents f' = contents f" "xml_text r = xml_text r'"
    by (cases "xml_file r'") (auto simp: same_inputs_def)
  with Some have "named_file r = None \<and> named_file r' = None \<or>
      named_file r = Some f \<and> named_file r' = Some f'"
    by (simp add: named_file_def split: option.splits)
  with f' show ?thesis by (auto simp add: pick_source_def)
qed

text \<open>
  C10.  Each endpoint's response (body and status) is a function of the inline text, the
  upload's name and content and the indentation: two runs on requests that agree on these
  give the same response, whatever the clock shows and whatever else the requests carry.
  The library calls are functions of their arguments in this model.
\<close>

theorem handlers_deterministic:
  "same_inputs r r' \<Longrightarrow>
     xml_format L R w r = xml_format L R w' r' \<and>
     xml_minify L R w r = xml_minify L R w' r' \<and>
     xml_convert L R w r = xml_convert L R w' r'"
proof -
  assume s: "same_inputs r r'"
  then have i: "indent_spaces r = indent_spaces r'" by (simp add: same_inputs_def)
  have h: "\<And>m. read_input m r = read_input m r'"
    by (simp add: read_input_def pick_source_same [OF s])
  show ?thesis
    unfolding xml_format_def xml_minify_def xml_convert_def h i by simp
qed

theorem handlers_deterministic_witness:
  "same_inputs (file_request (py ''a.xml'') [60, 97, 47, 62])
     ((file_request (py ''a.xml'') [60, 97, 47, 62])
        \<lparr>request_obj := [1], xml_file := Some \<lparr>filename = Some (py ''a.xml''),
           content_type = Some (py ''text/xml''), contents = [60, 97, 47, 62]\<rparr>\<rparr>) \<and>
   xml_format (rejecting_libs []) ascii_runtime \<lparr>utcnow = 0\<rparr>
       (file_request (py ''a.xml'') [60, 97, 47, 62])
     = xml_format (rejecting_libs []) ascii_runtime \<lparr>utcnow = 86400\<rparr>
       ((file_request (py ''a.xml'') [60, 97, 47, 62])
          \<lparr>request_obj := [1], xml_file := Some \<lparr>filename = Some (py ''a.xml''),
             content_type = Some (py ''text/xml''), contents = [60, 97, 47, 62]\<rparr>\<rparr>)"
proof -
  have s: "same_inputs (file_request (py ''a.xml'') [60, 97, 47, 62])
     ((file_request (py ''a.xml'') [60, 97, 47, 62])
        \<lparr>request_obj := [1], xml_file := Some \<lparr>filename = Some (py ''a.xml''),
           content_type = Some (py ''text/xml''), contents = [60, 97, 47, 62]\<rparr>\<rparr>)"
    by (simp add: same_inputs_def file_request_def)
  show ?thesis
    using s handlers_deterministic [OF s, of "rejecting_libs []" ascii_runtime
        "\<lparr>utcnow = 0\<rparr>" "\<lparr>utcnow = 86400\<rparr>"]
    by simp
qed

lemma read_input_no_server_error: "read_input m req \<noteq> Inl ServerError"
proof -
  have "pick_source m req \<noteq> Inl ServerError"
  proof (cases "named_file req")
    case None
    then show ?thesis by (simp add: pick_source_def split: option.splits)
  next
    case (Some f)
    obtain raw where "decode_contents (contents f) = Inr raw"
      using decode_contents_Inr by blast
    with Some show ?thesis by (simp add: pick_source_def)
  qed
  then show ?thesis by (auto simp: read_input_def split: sum.splits if_splits)
qed

text \<open>
  C8.  Decoding an upload always yields a string: the UTF-8 reading when the bytes are
  valid UTF-8, and otherwise the Latin-1 reading, in which every byte is the code point of
  the same number.  In the handlers, a named upload of at most 1,000,000 bytes always
  resolves to that string: the decode step never ends the request.
\<close>

theorem decode_never_raises:
  "(\<exists>raw. decode_contents bs = Inr raw) \<and>
   (\<forall>e. decode_utf8 bs = Inl e \<longrightarrow> decode_contents bs = Inr (map unat bs)) \<and>
   (\<forall>s. decode_utf8 bs = Inr s \<longrightarrow> decode_contents bs = Inr s) \<and>
   (\<forall>f name. xml_file req = Some f \<and> filename f = Some name \<and> name \<noteq> [] \<and>
        length (contents f) \<le> 1000000 \<longrightarrow>
        (\<exists>raw. decode_contents (contents f) = Inr raw \<and> pick_source m req = Inr raw))"
proof -
  have d: "(\<exists>raw. decode_contents bs = Inr raw) \<and>
      (\<forall>e. decode_utf8 bs = Inl e \<longrightarrow> decode_contents bs = Inr (map unat bs)) \<and>
      (\<forall>s. decode_utf8 bs = Inr s \<longrightarrow> decode_contents bs = Inr s)"
    by (auto simp: decode_contents_def decode_latin1_ignore_def split: sum.splits)
  have p: "\<exists>raw. decode_contents (contents f) = Inr raw \<and> pick_source m req = Inr raw"
    if "xml_file req = Some f" "filename f = Some name" "name \<noteq> []"
      "length (contents f) \<le> 1000000" for f name
  proof -
    obtain raw where raw: "decode_contents (contents f) = Inr raw"
      using decode_contents_Inr by blast
    from that have "named_file req = Some f" by (simp add: named_file_def)
    with that(4) raw have "pick_source m req = Inr raw"
      by (simp add: pick_source_def MAX_XML_BYTES_def)
    with raw show ?thesis by blast
  qed
  from d p show ?thesis by blast
qed

theorem decode_never_raises_witness:
  "decode_utf8 [255, 60] = Inl UnicodeDecodeError \<and> decode_contents [255, 60] = Inr [255, 60] \<and>
   decode_utf8 [195, 169] = Inr [233] \<and> decode_contents [195, 169] = Inr [233] \<and>
   pick_source (py ''No XML provided.'') (file_request (py ''a.xml'') [255, 60]) = Inr [255, 60]"
proof -
  have 1: "decode_utf8 [255, 60] = Inl UnicodeDecodeError" by simp
  have 2: "decode_utf8 [195, 169] = Inr [233]" by (simp add: cont_def)
  have 3: "xml_file (file_request (py ''a.xml'') [255, 60])
        = Some \<lparr>filename = Some (py ''a.xml''), content_type = None, contents = [255, 60]\<rparr> \<and>
      filename \<lparr>filename = Some (py ''a.xml''), content_type = None, contents = [255, 60]\<rparr>
        = Some (py ''a.xml'') \<and>
      py ''a.xml'' \<noteq> [] \<and>
      length (contents \<lparr>filename = Some (py ''a.xml''), content_type = None,
        contents = [255, 60 :: byte]\<rparr>) \<le> 1000000"
    by (simp add: file_request_def py_def)
  have 4: "decode_contents [255, 60] = Inr [255, 60]"
    using decode_never_raises [of "[255, 60]"] 1 by simp
  have 5: "decode_contents [195, 169] = Inr [233]"
    using decode_never_raises [of "[195, 169]"] 2 by simp
  have "\<exists>raw. decode_contents [255, 60] = Inr raw \<and>
      pick_source (py ''No XML provided.'') (file_request (py ''a.xml'') [255, 60]) = Inr raw"
    using decode_never_raises [of "[255, 60]" "file_request (py ''a.xml'') [255, 60]"
        "py ''No XML provided.''"] 3
    by auto
  with 4 have 6: "pick_source (py ''No XML provided.'') (file_request (py ''a.xml'') [255, 60])
      = Inr [255, 60]"
    by auto
  from 1 2 4 5 6 show ?thesis by (intro conjI)
qed

lemma splitlines_from_plain:
  "\<not> islinebreak c \<Longrightarrow> splitlines_from cur (c # t) = splitlines_from (cur @ [c]) t"
  by (cases t) (auto simp: islinebreak_def)

lemma splitlines_from_newline: "splitlines_from cur (10 # t) = cur # splitlines_from [] t"
  by (cases t) (simp_all add: islinebreak_def)

lemma splitlines_from_run:
  "\<forall>c\<in>set x. \<not> islinebreak c \<Longrightarrow> splitlines_from cur (x @ t) = splitlines_from (cur @ x) t"
proof (induction x arbitrary: cur)
  case Nil
  then show ?case by simp
next
  case (Cons c x)
  then have "splitlines_from cur ((c # x) @ t) = splitlines_from (cur @ [c]) (x @ t)"
    by (simp add: splitlines_from_plain)
  also have "\<dots> = splitlines_from ((cur @ [c]) @ x) t"
    using Cons by simp
  finally show ?case by simp
qed

lemma splitlines_from_no_break:
  "\<forall>c\<in>set cur. \<not> islinebreak c \<Longrightarrow>
     \<forall>l\<in>set (splitlines_from cur s). \<forall>c\<in>set l. \<not> islinebreak c"
proof (induction cur s rule: splitlines_from.induct)
  case (1 cur)
  then show ?case by simp
next
  case (2 cur c)
  then show ?case by simp
next
  case (3 cur c d s)
  consider (crlf) "c = 13 \<and> d = 10"
    | (brk) "\<not> (c = 13 \<and> d = 10)" "islinebreak c"
    | (plain) "\<not> (c = 13 \<and> d = 10)" "\<not> islinebreak c"
    by blast
  then show ?case
  proof cases
    case crlf
    have "\<forall>l\<in>set (splitlines_from [] s). \<forall>c\<in>set l. \<not> islinebreak c"
      by (rule "3.IH"(1) [OF crlf]) simp
    moreover have "splitlines_from cur (c # d # s) = cur # splitlines_from [] s"
      using crlf by simp
    ultimately show ?thesis using "3.prems" by (simp only: list.set ball_simps)
  next
    case brk
    have "\<forall>l\<in>set (splitlines_from [] (d # s)). \<forall>c\<in>set l. \<not> islinebreak c"
      by (rule "3.IH"(2) [OF brk]) simp
    moreover have "splitlines_from cur (c # d # s) = cur # splitlines_from [] (d # s)"
      by (simp only: splitlines_from.simps brk if_False if_True)
    ultimately show ?thesis using "3.prems" by (simp only: list.set ball_simps)
  next
    case plain
    have "\<forall>c\<in>set (cur @ [c]). \<not> islinebreak c"
      using "3.prems" plain(2) by simp
    then have "\<forall>l\<in>set (splitlines_from (cur @ [c]) (d # s)). \<forall>c\<in>set l. \<not> islinebreak c"
      by (rule "3.IH"(3) [OF plain])
    moreover have "splitlines_from cur (c # d # s) = splitlines_from (cur @ [c]) (d # s)"
      by (simp only: splitlines_from.simps plain if_False)
    ultimately show ?thesis by (simp only:)
  qed
qed

lemma splitlines_join:
  "\<forall>l\<in>set ls. l \<noteq> [] \<and> (\<forall>c\<in>set l. \<not> islinebreak c) \<Longrightarrow>
     splitlines_from [] (join [10] ls) = ls"
proof (induction ls)
  case Nil
  then show ?case by simp
next
  case (Cons x ls)
  show ?case
  proof (cases ls)
    case Nil
    with Cons.prems show ?thesis
      using splitlines_from_run [of x "[]" "[]"] by simp
  next
    case (Cons y ys)
    have "splitlines_from [] (x @ 10 # join [10] (y # ys)) = splitlines_from x (10 # join [10] (y # ys))"
      using Cons.prems splitlines_from_run [of x "[]" "10 # join [10] (y # ys)"] by simp
    also have "\<dots> = x # splitlines_from [] (join [10] (y # ys))"
      by (rule splitlines_from_newline)
    also have "\<dots> = x # y # ys"
      using Cons.IH Cons.prems Cons by simp
    finally show ?thesis using Cons by simp
  qed
qed

lemma splitlines_drop_blank_lines:
  "splitlines (drop_blank_lines p) = filter (\<lambda>l. strip l \<noteq> []) (splitlines p)"
proof -
  have "\<forall>l\<in>set (filter (\<lambda>l. strip l \<noteq> []) (splitlines p)).
          l \<noteq> [] \<and> (\<forall>c\<in>set l. \<not> islinebreak c)"
    using splitlines_from_no_break [of "[]" p] by (auto simp: splitlines_def strip_Nil)
  then show ?thesis
    unfolding drop_blank_lines_def splitlines_def [of "join _ _"]
    by (rule splitlines_join)
qed











lemma read_input_text_request:
  assumes "t \<noteq> []" "\<not> isspace (hd t)" "\<not> isspace (last t)"
    "length (encode_utf8 t) \<le> MAX_XML_BYTES"
  shows "read_input m (text_request t) = Inr t"
  using assms strip_fixed [of t]
  by (simp add: read_input_def pick_source_def text_request_def named_file_def)



lemma error_object_simps:
  "is_error_object (error_body m)"
  "is_error_object (parse_error_body m l)"
  "\<not> is_pretty_payload (error_body m)"
  "\<not> is_pretty_payload (parse_error_body m l)"
  "is_pretty_payload (JObj [(py ''pretty'', JStr s)])"
  "\<not> is_error_object (JObj [(py ''pretty'', JStr s)])"
  by (simp_all add: is_error_object_def is_pretty_payload_def error_body_def parse_error_body_def
      line_json_def py_def split: option.splits)

lemma read_input_error_response: "read_input m req = Inl r \<Longrightarrow> error_response r"
proof -
  assume a: "read_input m req = Inl r"
  have p: "pick_source m req = Inl r' \<Longrightarrow> error_response r'" for r'
  proof (cases "named_file req")
    case None
    assume "pick_source m req = Inl r'"
    with None show ?thesis
      by (auto simp: pick_source_def error_response_def error_object_simps
          split: option.splits if_splits)
  next
    case (Some f)
    assume b: "pick_source m req = Inl r'"
    obtain raw where "decode_contents (contents f) = Inr raw"
      using decode_contents_Inr by blast
    with Some b show ?thesis
      by (auto simp: pick_source_def error_response_def error_object_simps split: if_splits)
  qed
  from a show ?thesis
    using p by (auto simp: read_input_def error_response_def error_object_simps
        split: sum.splits if_splits)
qed

lemma error_object_not_pretty: "is_error_object j \<Longrightarrow> \<not> is_pretty_payload j"
  by (auto simp: is_error_object_def is_pretty_payload_def py_def
      split: json.splits list.splits prod.splits)

lemma error_response_pretty_or_error: "error_response r \<Longrightarrow> pretty_or_error r"
  by (cases r) (simp_all add: error_response_def pretty_or_error_def error_object_not_pretty)

lemma JObj_pretty_shape:
  "pretty_or_error (JSONResponse (JObj [(py ''pretty'', JStr s)]) 200)"
  "pretty_or_error (JSONResponse (error_body m) 400)"
  "pretty_or_error (JSONResponse (parse_error_body m l) 400)"
  by (simp_all add: pretty_or_error_def error_object_simps)

text \<open>
  C9, amended.  \<open>/xml/format\<close> and \<open>/xml/minify\<close> answer either 200 with a
  \<open>pretty\<close> string, which is no error object, or 400 with an error object, never both.
  Every JSON response of \<open>/xml/convert\<close> is either 400 with an error object or 200
  with the mapping \<open>xmltodict\<close> returned, unwrapped: the status alone tells the two
  apart.  What becomes of a mapping that cannot be rendered is left open here.
\<close>

theorem response_shape:
  "pretty_or_error (xml_format L R w req) \<and>
   pretty_or_error (xml_minify L R w req) \<and>
   (\<forall>j st. xml_convert L R w req = JSONResponse j st \<longrightarrow>
      (st = 400 \<and> is_error_object j) \<or>
      (st = 200 \<and> (\<exists>raw. read_input (py ''No XML provided.'') req = Inr raw \<and>
                        xmltodict_parse L raw = Inr j)))"
proof -
  have f: "pretty_or_error (xml_format L R w req)"
    using read_input_error_response [of "py ''No XML provided. Paste XML or upload an .xml file.''" req]
    by (auto simp: xml_format_def JObj_pretty_shape error_response_pretty_or_error
        split: sum.splits)
  have m: "pretty_or_error (xml_minify L R w req)"
    using read_input_error_response [of "py ''No XML provided.''" req]
    by (auto simp: xml_minify_def JObj_pretty_shape error_response_pretty_or_error
        split: sum.splits)
  have c: "(st = 400 \<and> is_error_object j) \<or>
        (st = 200 \<and> (\<exists>raw. read_input (py ''No XML provided.'') req = Inr raw \<and>
                          xmltodict_parse L raw = Inr j))"
    if "xml_convert L R w req = JSONResponse j st" for j st
    using that read_input_error_response [of "py ''No XML provided.''" req]
    by (auto simp: xml_convert_def error_object_simps error_response_def
        split: sum.splits response.splits if_splits)
  from f m c show ?thesis by blast
qed

lemma read_doc_error: "read_input m (text_request doc_error) = Inr doc_error"
  by (rule read_input_text_request)
    (simp_all add: doc_error_def py_def isspace_def encode_utf8_def encode_cp_def MAX_XML_BYTES_def)

text \<open>
  C9 as stated fails on \<open>/xml/convert\<close>: the document
  \<open><error>Empty XML content.</error>\<close> is answered with status 200 and the very body
  that the empty input gets with status 400, an error object.
\<close>

theorem response_shape_counterexample:
  "xml_convert libs_error ascii_runtime midnight (text_request doc_error)
     = JSONResponse (error_body (py ''Empty XML content.'')) 200 \<and>
   xml_convert libs_error ascii_runtime midnight (text_request [])
     = JSONResponse (error_body (py ''Empty XML content.'')) 400 \<and>
   \<not> success_or_error (xml_convert libs_error ascii_runtime midnight (text_request doc_error))"
proof -
  have 1: "xml_convert libs_error ascii_runtime midnight (text_request doc_error)
     = JSONResponse (error_body (py ''Empty XML content.'')) 200"
    by (simp add: xml_convert_def read_doc_error libs_error_def known_document_def error_body_def
        ascii_runtime_def)
  have 2: "xml_convert libs_error ascii_runtime midnight (text_request [])
     = JSONResponse (error_body (py ''Empty XML content.'')) 400"
    by (simp add: xml_convert_def read_input_def pick_source_def text_request_def named_file_def
        encode_utf8_def strip_def MAX_XML_BYTES_def)
  show ?thesis
    unfolding 1 2 by (simp add: success_or_error_def error_object_simps)
qed

theorem response_shape_witness:
  "pretty_or_error (xml_format libs_ab ascii_runtime midnight (text_request doc_ab)) \<and>
   pretty_or_error (xml_minify libs_ab ascii_runtime midnight (text_request [])) \<and>
   xml_convert libs_error ascii_runtime midnight (text_request doc_error)
     = JSONResponse (JObj [(py ''error'', JStr (py ''Empty XML content.''))]) 200"
proof -
  have 1: "xml_convert libs_error ascii_runtime midnight (text_request doc_error)
     = JSONResponse (JObj [(py ''error'', JStr (py ''Empty XML content.''))]) 200"
    by (simp add: xml_convert_def read_doc_error libs_error_def known_document_def
        ascii_runtime_def)
  show ?thesis
    using response_shape [of libs_ab ascii_runtime midnight "text_request doc_ab"]
      response_shape [of libs_ab ascii_runtime midnight "text_request []"]
      response_shape [of libs_error ascii_runtime midnight "text_request doc_error"] 1
    by simp
qed

lemma ci_line_length: "ci_line w \<Longrightarrow> length w = 4"
  by (auto simp: ci_line_def split: list.splits)

lemma match_here_line_match:
  assumes "match_here R s = Some ds"
  shows "line_match R s ds"
proof -
  let ?t = "drop 4 s"
  let ?u = "dropWhile isspace ?t"
  from assms have ci: "ci_line (take 4 s)" and t: "?t \<noteq> []" "isspace (hd ?t)"
    and ds: "ds = takeWhile (isdec R) ?u" "ds \<noteq> []"
    by (auto simp: match_here_def Let_def split: if_splits)
  have "s = take 4 s @ ?t" by simp
  also have "?t = takeWhile isspace ?t @ ?u" by simp
  also have "?u = ds @ dropWhile (isdec R) ?u" by (simp add: ds(1))
  finally have eq: "s = take 4 s @ takeWhile isspace ?t @ ds @ dropWhile (isdec R) ?u"
    by simp
  have sp: "takeWhile isspace ?t \<noteq> []"
    using t by (cases ?t) simp_all
  have sp_all: "\<forall>c\<in>set (takeWhile isspace ?t). isspace c"
    by (auto dest: set_takeWhileD)
  have ds_all: "\<forall>c\<in>set ds. isdec R c"
    by (auto simp: ds(1) dest: set_takeWhileD)
  have rest: "dropWhile (isdec R) ?u = [] \<or> \<not> isdec R (hd (dropWhile (isdec R) ?u))"
    using hd_dropWhile [of "isdec R" ?u] by blast
  show ?thesis
    unfolding line_match_def using eq ci sp sp_all ds(2) ds_all rest by blast
qed

lemma line_match_match_here:
  assumes "classes_disjoint R" "line_match R s ds"
  shows "match_here R s = Some ds"
proof -
  from assms(2) obtain w sp rest where s: "s = w @ sp @ ds @ rest" and w: "ci_line w"
    and sp: "sp \<noteq> []" "\<forall>c\<in>set sp. isspace c"
    and ds: "ds \<noteq> []" "\<forall>c\<in>set ds. isdec R c"
    and rest: "rest = [] \<or> \<not> isdec R (hd rest)"
    unfolding line_match_def by blast
  have lw: "length w = 4" using w by (rule ci_line_length)
  have tk: "take 4 s = w" and dr: "drop 4 s = sp @ ds @ rest"
    using lw by (simp_all add: s)
  have hd_ds: "\<not> isspace (hd ds)"
    using ds assms(1) by (cases ds) (auto simp: classes_disjoint_def isdec_def)
  have dw: "dropWhile isspace (sp @ ds @ rest) = ds @ rest"
    using sp(2) ds(1) hd_ds by (cases ds) (simp_all add: dropWhile_append)
  have tw: "takeWhile (isdec R) (ds @ rest) = ds"
    using ds(2) rest by (cases rest) (simp_all add: takeWhile_append)
  have "isspace (hd (sp @ ds @ rest))" using sp by (cases sp) simp_all
  then show ?thesis
    using sp(1) ds(1) w by (simp add: match_here_def tk dr dw tw)
qed

lemma line_match_Nil: "\<not> line_match R [] ds"
  by (auto simp: line_match_def dest: ci_line_length)

lemma first_match_Nil: "\<not> first_match R [] i ds"
  by (simp add: first_match_def line_match_Nil)

lemma first_match_0: "first_match R msg 0 ds \<longleftrightarrow> line_match R msg ds"
  by (simp add: first_match_def)

lemma first_match_Suc:
  "first_match R (c # s) (Suc j) ds \<longleftrightarrow>
     first_match R s j ds \<and> (\<forall>ds'. \<not> line_match R (c # s) ds')"
proof -
  have "(\<forall>k<Suc j. \<forall>ds'. \<not> line_match R (drop k (c # s)) ds') \<longleftrightarrow>
        (\<forall>ds'. \<not> line_match R (c # s) ds') \<and> (\<forall>k<j. \<forall>ds'. \<not> line_match R (drop k s) ds')"
    by (simp add: All_less_Suc2)
  then show ?thesis by (auto simp: first_match_def)
qed

lemma re_search_first_match:
  assumes "classes_disjoint R"
  shows "re_search R msg = Some ds \<longleftrightarrow> (\<exists>i. first_match R msg i ds)"
proof (induction msg)
  case Nil
  then show ?case by (simp add: first_match_Nil)
next
  case (Cons c s)
  show ?case
  proof (cases "match_here R (c # s)")
    case (Some ds0)
    then have lm: "line_match R (c # s) ds0" by (rule match_here_line_match)
    have "(\<exists>i. first_match R (c # s) i ds) \<longleftrightarrow> ds = ds0"
    proof
      assume "\<exists>i. first_match R (c # s) i ds"
      then obtain i where i: "first_match R (c # s) i ds" by blast
      show "ds = ds0"
      proof (cases i)
        case 0
        with i have "line_match R (c # s) ds" by (simp add: first_match_0)
        then have "match_here R (c # s) = Some ds"
          using assms line_match_match_here by blast
        with Some show ?thesis by simp
      next
        case (Suc j)
        with i lm show ?thesis by (simp add: first_match_Suc)
      qed
    next
      assume "ds = ds0"
      with lm have "first_match R (c # s) 0 ds" by (simp add: first_match_0)
      then show "\<exists>i. first_match R (c # s) i ds" by blast
    qed
    with Some show ?thesis by auto
  next
    case None
    then have no: "\<forall>ds'. \<not> line_match R (c # s) ds'"
      using assms line_match_match_here by fastforce
    have "(\<exists>i. first_match R (c # s) i ds) \<longleftrightarrow> (\<exists>j. first_match R s j ds)"
    proof
      assume "\<exists>i. first_match R (c # s) i ds"
      then obtain i where i: "first_match R (c # s) i ds" by blast
      with no obtain j where "i = Suc j" by (cases i) (auto simp: first_match_0)
      with i show "\<exists>j. first_match R s j ds" by (auto simp: first_match_Suc)
    next
      assume "\<exists>j. first_match R s j ds"
      then obtain j where "first_match R s j ds" by blast
      with no have "first_match R (c # s) (Suc j) ds" by (simp add: first_match_Suc)
      then show "\<exists>i. first_match R (c # s) i ds" by blast
    qed
    with None Cons show ?thesis by simp
  qed
qed


lemma extract_error_line_None:
  "re_search R msg = None \<Longrightarrow> extract_error_line R msg = None"
  by (simp only: extract_error_line_def option.case if_cancel)

lemma extract_error_line_Some:
  assumes "re_search R msg = Some ds"
  shows "extract_error_line R msg
      = (if within_int_limit R ds then Some (digits_value R ds) else None)"
proof -
  from assms have "msg \<noteq> []" by (cases msg) simp_all
  then have "extract_error_line R msg = (case py_int R ds of Some n \<Rightarrow> Some n | None \<Rightarrow> None)"
    by (simp only: extract_error_line_def assms if_False option.case)
  also have "\<dots> = (if within_int_limit R ds then Some (digits_value R ds) else None)"
    by (simp add: py_int_def within_int_limit_def)
  finally show ?thesis .
qed

lemma line_json_extract:
  assumes "classes_disjoint R"
  shows "(line_json (extract_error_line R msg) = JInt n \<longleftrightarrow>
            (\<exists>i ds. first_match R msg i ds \<and> within_int_limit R ds \<and> n = digits_value R ds)) \<and>
         (line_json (extract_error_line R msg) = JNull \<longleftrightarrow>
            \<not> (\<exists>i ds. first_match R msg i ds \<and> within_int_limit R ds))"
proof (cases "re_search R msg")
  case None
  have "\<not> first_match R msg i ds" for i ds
    using re_search_first_match [OF assms, of msg ds] None by auto
  then have "\<not> (\<exists>i ds. first_match R msg i ds \<and> within_int_limit R ds \<and> n = digits_value R ds)"
    and "\<not> (\<exists>i ds. first_match R msg i ds \<and> within_int_limit R ds)"
    by blast+
  moreover have "line_json (extract_error_line R msg) = JNull"
    by (simp add: extract_error_line_None [OF None] line_json_def)
  ultimately show ?thesis by simp
next
  case (Some ds0)
  have u: "(\<exists>i. first_match R msg i ds) \<longleftrightarrow> ds = ds0" for ds
    using re_search_first_match [OF assms, of msg ds] Some by auto
  from u [of ds0] obtain i0 where i0: "first_match R msg i0 ds0" by auto
  have uniq: "ds = ds0" if "first_match R msg i ds" for i ds
    using u [of ds] that by auto
  have a: "(\<exists>i ds. first_match R msg i ds \<and> within_int_limit R ds \<and> n = digits_value R ds)
      \<longleftrightarrow> within_int_limit R ds0 \<and> n = digits_value R ds0"
  proof
    assume "\<exists>i ds. first_match R msg i ds \<and> within_int_limit R ds \<and> n = digits_value R ds"
    then obtain i ds where "first_match R msg i ds" "within_int_limit R ds" "n = digits_value R ds"
      by blast
    with uniq [of i ds] show "within_int_limit R ds0 \<and> n = digits_value R ds0" by simp
  next
    assume "within_int_limit R ds0 \<and> n = digits_value R ds0"
    with i0 show "\<exists>i ds. first_match R msg i ds \<and> within_int_limit R ds \<and> n = digits_value R ds"
      by blast
  qed
  have b: "(\<exists>i ds. first_match R msg i ds \<and> within_int_limit R ds) \<longleftrightarrow> within_int_limit R ds0"
  proof
    assume "\<exists>i ds. first_match R msg i ds \<and> within_int_limit R ds"
    then obtain i ds where "first_match R msg i ds" "within_int_limit R ds" by blast
    with uniq [of i ds] show "within_int_limit R ds0" by simp
  next
    assume "within_int_limit R ds0"
    with i0 show "\<exists>i ds. first_match R msg i ds \<and> within_int_limit R ds" by blast
  qed
  have l: "line_json (extract_error_line R msg)
      = (if within_int_limit R ds0 then JInt (digits_value R ds0) else JNull)"
    by (simp add: extract_error_line_Some [OF Some] line_json_def)
  show ?thesis
    unfolding a b l by auto
qed

lemma read_input_any_missing: "read_input m req = Inr s \<Longrightarrow> read_input m' req = Inr s"
  by (auto simp: read_input_def pick_source_def split: option.splits sum.splits if_splits)

text \<open>
  C6, amended.  When the validator refuses the resolved input with the diagnostic
  \<open>msg\<close>, each of the three endpoints answers 400 with the non-empty error
  "XML parse error: " followed by \<open>msg\<close>, and a \<open>line\<close> field.  The field is
  the integer \<open>n\<close> exactly when the leftmost occurrence of the pattern in \<open>msg\<close>
  has digits of value \<open>n\<close> that \<open>int\<close> converts; it is null exactly when there
  is no occurrence or the digits of the leftmost one exceed the interpreter's limit.
\<close>

theorem parse_error_line:
  assumes "classes_disjoint R"
    and "read_input m req = Inr s"
    and "defused_fromstring L (encode_utf8 s) = Inl msg"
  shows "\<exists>l. xml_format L R w req
          = JSONResponse (JObj [(py ''error'', JStr (py ''XML parse error: '' @ msg)),
                                (py ''line'', l)]) 400 \<and>
        xml_minify L R w req
          = JSONResponse (JObj [(py ''error'', JStr (py ''XML parse error: '' @ msg)),
                                (py ''line'', l)]) 400 \<and>
        xml_convert L R w req
          = JSONResponse (JObj [(py ''error'', JStr (py ''XML parse error: '' @ msg)),
                                (py ''line'', l)]) 400 \<and>
        py ''XML parse error: '' @ msg \<noteq> [] \<and>
        (\<forall>n. l = JInt n \<longleftrightarrow>
           (\<exists>i ds. first_match R msg i ds \<and> within_int_limit R ds \<and> n = digits_value R ds)) \<and>
        (l = JNull \<longleftrightarrow> \<not> (\<exists>i ds. first_match R msg i ds \<and> within_int_limit R ds))"
proof -
  let ?l = "line_json (extract_error_line R msg)"
  have r: "\<And>m'. read_input m' req = Inr s"
    using assms(2) by (rule read_input_any_missing)
  have "xml_format L R w req = JSONResponse (parse_error_body msg (extract_error_line R msg)) 400"
    "xml_minify L R w req = JSONResponse (parse_error_body msg (extract_error_line R msg)) 400"
    "xml_convert L R w req = JSONResponse (parse_error_body msg (extract_error_line R msg)) 400"
    by (simp_all add: xml_format_def xml_minify_def xml_convert_def r assms(3))
  moreover have "py ''XML parse error: '' @ msg \<noteq> []" by (simp add: py_def)
  moreover note line_json_extract [OF assms(1), of msg]
  ultimately show ?thesis
    unfolding parse_error_body_def by (intro exI [of _ ?l]) blast
qed


lemma ci_line_hd: "ci_line w \<Longrightarrow> w \<noteq> [] \<and> (hd w = 108 \<or> hd w = 76)"
  by (cases w) (auto simp: ci_line_def split: list.splits)

lemma line_match_hd:
  assumes "line_match R (c # t) ds"
  shows "c = 108 \<or> c = 76"
proof -
  from assms obtain w r where "c # t = w @ r" "ci_line w"
    unfolding line_match_def by blast
  with ci_line_hd [of w] show ?thesis by (cases w) auto
qed

lemma first_match_skip:
  assumes "\<forall>c\<in>set pre. c \<noteq> 108 \<and> c \<noteq> 76" and "line_match R s ds"
  shows "first_match R (pre @ s) (length pre) ds"
proof -
  have "\<not> line_match R (drop j (pre @ s)) ds'" if "j < length pre" for j ds'
  proof
    assume lm: "line_match R (drop j (pre @ s)) ds'"
    from that have "drop j (pre @ s) = pre ! j # drop (Suc j) pre @ s"
      by (simp add: Cons_nth_drop_Suc)
    with lm have "pre ! j = 108 \<or> pre ! j = 76" using line_match_hd by metis
    moreover from that have "pre ! j \<in> set pre" by simp
    ultimately show False using assms(1) by blast
  qed
  with assms(2) show ?thesis by (simp add: first_match_def)
qed

lemma classes_disjoint_ascii: "classes_disjoint ascii_runtime"
  by (auto simp: classes_disjoint_def ascii_runtime_def isspace_def)

lemma encode_utf8_append: "encode_utf8 (a @ b) = encode_utf8 a @ encode_utf8 b"
  by (simp add: encode_utf8_def)

lemma isdec_ascii_49: "isdec ascii_runtime 49"
  by (simp add: isdec_def ascii_runtime_def)

lemma first_match_entity: "first_match ascii_runtime msg_entity 39 (replicate 4301 49)"
proof -
  let ?pre = "py ''EntitiesForbidden(name='' @ [39] @ py ''x'' @ [39] @ py '', system_id='' @ [39]"
  let ?rest = "[39] @ py '', public_id=None)''"
  have lm: "line_match ascii_runtime (py ''line'' @ [32] @ replicate 4301 49 @ ?rest)
      (replicate 4301 49)"
    unfolding line_match_def
    apply (rule exI [of _ "py ''line''"])
    apply (rule exI [of _ "[32]"])
    apply (rule exI [of _ ?rest])
    apply (simp add: py_def ci_line_def isspace_def isdec_ascii_49)
    apply (simp add: isdec_def ascii_runtime_def)
    done
  have pre: "\<forall>c\<in>set ?pre. c \<noteq> 108 \<and> c \<noteq> 76" by (simp add: py_def)
  have len: "length ?pre = 39" by (simp add: py_def)
  have eq: "msg_entity = ?pre @ (py ''line'' @ [32] @ replicate 4301 49 @ ?rest)"
    by (simp add: msg_entity_def py_def)
  show ?thesis
    using first_match_skip [OF pre lm] unfolding eq len .
qed

lemma read_doc_entity: "read_input m (text_request doc_entity) = Inr doc_entity"
proof (rule read_input_text_request)
  show "doc_entity \<noteq> []" by (simp add: doc_entity_def py_def)
  show "\<not> isspace (hd doc_entity)" by (simp add: doc_entity_def py_def isspace_def)
  show "\<not> isspace (last doc_entity)" by (simp add: doc_entity_def py_def isspace_def)
  have "length (encode_utf8 doc_entity) = 4346"
    by (simp add: doc_entity_def encode_utf8_append length_encode_utf8_replicate)
      (simp add: py_def encode_utf8_def encode_cp_def)
  then show "length (encode_utf8 doc_entity) \<le> MAX_XML_BYTES"
    by (simp add: MAX_XML_BYTES_def)
qed

text \<open>
  C6 as stated fails under CPython's default limit of 4300 digits: the diagnostic for the
  entity document contains an occurrence of the pattern at index 39, with 4301 digits,
  and every endpoint answers with \<open>line\<close> null, because \<open>int\<close> raises and
  lines 65-66 return \<open>None\<close>.
\<close>

theorem parse_error_line_counterexample:
  "first_match ascii_runtime msg_entity 39 (replicate 4301 49) \<and>
   xml_format (rejecting_libs msg_entity) ascii_runtime midnight (text_request doc_entity)
     = JSONResponse (JObj [(py ''error'', JStr (py ''XML parse error: '' @ msg_entity)),
                           (py ''line'', JNull)]) 400 \<and>
   xml_minify (rejecting_libs msg_entity) ascii_runtime midnight (text_request doc_entity)
     = JSONResponse (JObj [(py ''error'', JStr (py ''XML parse error: '' @ msg_entity)),
                           (py ''line'', JNull)]) 400 \<and>
   xml_convert (rejecting_libs msg_entity) ascii_runtime midnight (text_request doc_entity)
     = JSONResponse (JObj [(py ''error'', JStr (py ''XML parse error: '' @ msg_entity)),
                           (py ''line'', JNull)]) 400"
proof -
  have "re_search ascii_runtime msg_entity = Some (replicate 4301 49)"
    using re_search_first_match [OF classes_disjoint_ascii] first_match_entity by blast
  then have "extract_error_line ascii_runtime msg_entity
      = (if within_int_limit ascii_runtime (replicate 4301 49)
         then Some (digits_value ascii_runtime (replicate 4301 49)) else None)"
    by (rule extract_error_line_Some)
  also have "\<dots> = None"
    by (simp add: within_int_limit_def ascii_runtime_def)
  finally have e: "extract_error_line ascii_runtime msg_entity = None" .
  have d: "\<And>b. defused_fromstring (rejecting_libs msg_entity) b = Inl msg_entity"
    by (simp add: rejecting_libs_def)
  show ?thesis
    by (simp add: first_match_entity xml_format_def xml_minify_def xml_convert_def read_doc_entity
        d e parse_error_body_def line_json_def)
qed


lemma first_match_mismatch: "first_match ascii_runtime msg_mismatch 16 [49]"
proof -
  let ?pre = "py ''mismatched tag: ''"
  let ?rest = "py '', column 8''"
  have lm: "line_match ascii_runtime (py ''line'' @ [32] @ [49] @ ?rest) [49]"
    unfolding line_match_def
    apply (rule exI [of _ "py ''line''"])
    apply (rule exI [of _ "[32]"])
    apply (rule exI [of _ ?rest])
    apply (simp add: py_def ci_line_def isspace_def isdec_ascii_49)
    apply (simp add: isdec_def ascii_runtime_def)
    done
  have pre: "\<forall>c\<in>set ?pre. c \<noteq> 108 \<and> c \<noteq> 76" by (simp add: py_def)
  have len: "length ?pre = 16" by (simp add: py_def)
  have eq: "msg_mismatch = ?pre @ (py ''line'' @ [32] @ [49] @ ?rest)"
    by (simp add: msg_mismatch_def py_def)
  show ?thesis
    using first_match_skip [OF pre lm] unfolding eq len .
qed

theorem parse_error_line_witness:
  "xml_format (rejecting_libs msg_mismatch) ascii_runtime midnight (text_request doc_mismatch)
     = JSONResponse (JObj [(py ''error'', JStr (py ''XML parse error: '' @ msg_mismatch)),
                           (py ''line'', JInt 1)]) 400"
proof -
  have r: "read_input (py ''No XML provided.'') (text_request doc_mismatch) = Inr doc_mismatch"
    by (rule read_input_text_request)
      (simp_all add: doc_mismatch_def py_def isspace_def encode_utf8_def encode_cp_def
        MAX_XML_BYTES_def)
  have d: "defused_fromstring (rejecting_libs msg_mismatch) (encode_utf8 doc_mismatch)
      = Inl msg_mismatch"
    by (simp add: rejecting_libs_def)
  from parse_error_line [OF classes_disjoint_ascii r d, of midnight]
  obtain l where f: "xml_format (rejecting_libs msg_mismatch) ascii_runtime midnight
        (text_request doc_mismatch)
      = JSONResponse (JObj [(py ''error'', JStr (py ''XML parse error: '' @ msg_mismatch)),
                            (py ''line'', l)]) 400"
    and l: "\<forall>n. l = JInt n \<longleftrightarrow>
        (\<exists>i ds. first_match ascii_runtime msg_mismatch i ds \<and> within_int_limit ascii_runtime ds
           \<and> n = digits_value ascii_runtime ds)"
    by blast
  have "within_int_limit ascii_runtime [49]" "1 = digits_value ascii_runtime [49]"
    by (simp_all add: within_int_limit_def digits_value_def ascii_runtime_def)
  with first_match_mismatch have "l = JInt 1" using l by blast
  with f show ?thesis by simp
qed

lemma to_mapping_items: "to_mapping xmltodict_conventions items_tree
   = JObj [(py ''root'', JObj [(py ''item'', JList [JStr (py ''1''), JStr (py ''2'')])])]"
  by (simp add: to_mapping_def items_tree_def py_def)

lemma value_of_not_list: "value_of cv n \<noteq> JList xs"
  by (cases n) (simp_all add: Let_def)

lemma map_of_push_data:
  "map_of (push_data k v m) k' =
     (if k' = k then
        Some (case map_of m k of None \<Rightarrow> v
              | Some x \<Rightarrow> (case x of JList xs \<Rightarrow> JList (xs @ [v]) | _ \<Rightarrow> JList [x, v]))
      else map_of m k')"
  by (induction m) (auto split: json.splits)

lemma collapsed_snoc:
  assumes "\<forall>x\<in>set vs. \<forall>xs. x \<noteq> JList xs"
  shows "collapsed (vs @ [v]) =
     Some (case collapsed vs of None \<Rightarrow> v
           | Some x \<Rightarrow> (case x of JList xs \<Rightarrow> JList (xs @ [v]) | _ \<Rightarrow> JList [x, v]))"
proof (cases vs)
  case Nil
  then show ?thesis by (simp add: collapsed_def)
next
  case (Cons a r)
  show ?thesis
  proof (cases r)
    case Nil
    with Cons assms show ?thesis by (cases a) (simp_all add: collapsed_def)
  next
    case (Cons b r')
    with \<open>vs = a # r\<close> show ?thesis by (simp add: collapsed_def)
  qed
qed

lemma map_of_members:
  assumes "map_of m0 k = None"
  shows "map_of (foldl (\<lambda>m c. push_data (tag_of c) (value_of cv c) m) m0 cs) k
      = collapsed (map (value_of cv) (filter (\<lambda>c. tag_of c = k) cs))"
proof (induction cs rule: rev_induct)
  case Nil
  with assms show ?case by (simp add: collapsed_def)
next
  case (snoc c cs)
  have nl: "\<forall>x\<in>set (map (value_of cv) (filter (\<lambda>c. tag_of c = k) cs)). \<forall>xs. x \<noteq> JList xs"
    by (auto simp: value_of_not_list)
  show ?case
  proof (cases "tag_of c = k")
    case True
    then show ?thesis
      using snoc collapsed_snoc [OF nl, of "value_of cv c"]
      by (simp add: map_of_push_data)
  next
    case False
    then show ?thesis
      using snoc by (simp add: map_of_push_data)
  qed
qed

lemma map_of_attrs:
  "k \<notin> set (map (\<lambda>(a, v). attr_prefix cv @ a) as) \<Longrightarrow>
     map_of (map (\<lambda>(a, v). (attr_prefix cv @ a, JStr v)) as) k = None"
  by (induction as) auto

lemma value_of_members:
  assumes "as \<noteq> [] \<or> filter is_element cs \<noteq> []"
  shows "\<exists>m. value_of cv (Element t as cs) = JObj m \<and>
     (\<forall>k. k \<notin> set (map (\<lambda>(a, v). attr_prefix cv @ a) as) \<and>
          (text_of cs = [] \<or> k \<noteq> cdata_key cv) \<longrightarrow>
          map_of m k = collapsed (map (value_of cv) (siblings k cs)))"
proof -
  let ?members = "foldl (\<lambda>m c. push_data (tag_of c) (value_of cv c) m)
      (map (\<lambda>(k, v). (attr_prefix cv @ k, JStr v)) as) (filter is_element cs)"
  let ?m = "if text_of cs = [] then ?members
      else push_data (cdata_key cv) (JStr (text_of cs)) ?members"
  have v: "value_of cv (Element t as cs) = JObj ?m"
    using assms by (auto simp: Let_def)
  have "map_of ?m k = collapsed (map (value_of cv) (siblings k cs))"
    if "k \<notin> set (map (\<lambda>(a, v). attr_prefix cv @ a) as)"
      and "text_of cs = [] \<or> k \<noteq> cdata_key cv" for k
  proof -
    have "map_of ?members k = collapsed (map (value_of cv) (siblings k cs))"
      unfolding siblings_def by (rule map_of_members) (rule map_of_attrs [OF that(1)])
    with that(2) show ?thesis by (auto simp: map_of_push_data)
  qed
  with v show ?thesis by blast
qed


text \<open>
  What holds of \<open>/xml/convert\<close> whenever the mapping renders.  For an input that passes
  input resolution and the validator, and that \<open>xmltodict\<close> converts as section 4.5
  describes, the answer is 200 with the mapping itself, whose sole top-level key is the
  root tag, without a wrapper.  In every sub-mapping, a key that is neither an attribute
  key nor the text key holds what the child elements of that tag collapse to: the one
  value, or the list of the values in document order.
\<close>

lemma convert_mapping_rendered:
  assumes "read_input (py ''No XML provided.'') req = Inr s"
    and "defused_fromstring L (encode_utf8 s) = Inr ok"
    and "xmltodict_parse L s = Inr (to_mapping cv (Element t as cs))"
    and "json_depth (to_mapping cv (Element t as cs)) \<le> json_depth_limit R"
  shows "xml_convert L R w req = JSONResponse (JObj [(t, value_of cv (Element t as cs))]) 200 \<and>
    (\<forall>t' as' cs'. as' \<noteq> [] \<or> filter is_element cs' \<noteq> [] \<longrightarrow>
       (\<exists>m. value_of cv (Element t' as' cs') = JObj m \<and>
          (\<forall>k. k \<notin> set (map (\<lambda>(a, v). attr_prefix cv @ a) as') \<and>
               (text_of cs' = [] \<or> k \<noteq> cdata_key cv) \<longrightarrow>
               map_of m k = collapsed (map (value_of cv) (siblings k cs')))))"
proof -
  have "xml_convert L R w req = JSONResponse (to_mapping cv (Element t as cs)) 200"
    unfolding xml_convert_def assms(1) using assms(4) by (simp add: assms(2,3))
  then have "xml_convert L R w req = JSONResponse (JObj [(t, value_of cv (Element t as cs))]) 200"
    by (simp only: to_mapping_def tag_of.simps)
  then show ?thesis using value_of_members [of _ _ cv] by blast
qed

lemma read_doc_items: "read_input m (text_request doc_items) = Inr doc_items"
  by (rule read_input_text_request)
    (simp_all add: doc_items_def py_def isspace_def encode_utf8_def encode_cp_def MAX_XML_BYTES_def)

text \<open>
  The example of section 8: \<open><root><item>1</item><item>2</item></root>\<close> gives
  \<open>root\<close> mapping to \<open>item\<close> with the list of "1" and "2".
\<close>

lemma convert_items_example:
  "xml_convert libs_items ascii_runtime midnight (text_request doc_items)
     = JSONResponse
         (JObj [(py ''root'', JObj [(py ''item'', JList [JStr (py ''1''), JStr (py ''2'')])])]) 200"
proof -
  have d: "defused_fromstring libs_items (encode_utf8 doc_items) = Inr ()"
    by (simp add: libs_items_def known_document_def)
  have x: "xmltodict_parse libs_items doc_items
      = Inr (to_mapping xmltodict_conventions (Element (py ''root'') []
          [Element (py ''item'') [] [Text (py ''1'')], Element (py ''item'') [] [Text (py ''2'')]]))"
    by (simp add: libs_items_def known_document_def items_tree_def)
  have v: "value_of xmltodict_conventions (Element (py ''root'') []
          [Element (py ''item'') [] [Text (py ''1'')], Element (py ''item'') [] [Text (py ''2'')]])
      = JObj [(py ''item'', JList [JStr (py ''1''), JStr (py ''2'')])]"
    by (simp add: py_def)
  have l: "json_depth (to_mapping xmltodict_conventions (Element (py ''root'') []
          [Element (py ''item'') [] [Text (py ''1'')], Element (py ''item'') [] [Text (py ''2'')]]))
      \<le> json_depth_limit ascii_runtime"
    by (simp add: to_mapping_def py_def ascii_runtime_def)
  show ?thesis
    using convert_mapping_rendered [OF read_doc_items d x l, of midnight]
    by (simp only: v)
qed

lemma json_depth_deep_mapping: "json_depth (deep_mapping n) = n"
  by (induction n) simp_all

lemma length_encode_deep_doc: "length (encode_utf8 (deep_doc n)) = 7 * n"
  by (induction n) (simp_all add: encode_utf8_append, simp_all add: encode_utf8_def encode_cp_def py_def)

lemma deep_doc_ends:
  "0 < n \<Longrightarrow> deep_doc n \<noteq> [] \<and> hd (deep_doc n) = 60 \<and> last (deep_doc n) = 62"
  by (cases n) (simp_all add: py_def)

lemma read_deep_doc: "read_input m (text_request (deep_doc 2000)) = Inr (deep_doc 2000)"
proof (rule read_input_text_request)
  have e: "deep_doc 2000 \<noteq> [] \<and> hd (deep_doc 2000) = 60 \<and> last (deep_doc 2000) = 62"
    by (rule deep_doc_ends) simp
  from e show "deep_doc 2000 \<noteq> []" by simp
  from e show "\<not> isspace (hd (deep_doc 2000))" by (simp add: isspace_def)
  from e show "\<not> isspace (last (deep_doc 2000))" by (simp add: isspace_def)
  show "length (encode_utf8 (deep_doc 2000)) \<le> MAX_XML_BYTES"
    by (simp add: length_encode_deep_doc MAX_XML_BYTES_def)
qed

text \<open>
  C2 fails on the code at a valid document of 14,000 bytes, 2000 elements \<open>a\<close> nested in
  one another.  The validator accepts it and \<open>xmltodict\<close> returns the mapping nested
  2000 deep; line 216 then renders it outside every \<open>try\<close>, \<open>json.dumps\<close> raises
  \<open>RecursionError\<close> under the recursion limit of 1000, and the request ends in an
  uncaught exception instead of the 200 the claim promises.
\<close>

theorem convert_deep_document:
  "length (encode_utf8 (deep_doc 2000)) = 14000 \<and>
   json_depth (deep_mapping 2000) = 2000 \<and>
   xml_convert (convert_table (deep_doc 2000) (deep_mapping 2000)) ascii_runtime midnight
     (text_request (deep_doc 2000)) = ServerError"
proof -
  have "xml_convert (convert_table (deep_doc 2000) (deep_mapping 2000)) ascii_runtime midnight
     (text_request (deep_doc 2000)) = ServerError"
    by (simp add: xml_convert_def read_deep_doc convert_table_def json_depth_deep_mapping
        ascii_runtime_def)
  then show ?thesis
    by (simp add: length_encode_deep_doc json_depth_deep_mapping)
qed

end
